theory Spec2Isabelle
  imports Complex_Main "HOL-Library.Sublist"
begin

section \<open>The response cache\<close>

text \<open>
  The module-level cache of \<^verbatim>\<open>src/app/api/github/route.ts\<close> is a
  \<^verbatim>\<open>Map<string, { data: any; timestamp: number }>\<close>. It is modelled as a
  partial map from keys to entries. The payload type is a parameter, as \<^verbatim>\<open>any\<close>
  is in the source. \<^verbatim>\<open>Date.now()\<close> is an input of each operation: the reading of
  the system clock in milliseconds, an integer that need not grow from one call to the next.
  A \<^verbatim>\<open>null\<close> result of \<^verbatim>\<open>getCached\<close> is \<open>None\<close>.
\<close>

record 'a cache_entry =
  data :: 'a
  timestamp :: int

type_synonym 'a cache_map = "string \<rightharpoonup> 'a cache_entry"

definition CACHE_TTL :: int where
  "CACHE_TTL = 60000"

definition getCached :: "int \<Rightarrow> string \<Rightarrow> 'a cache_map \<Rightarrow> 'a option \<times> 'a cache_map" where
  "getCached now key cache =
     (case cache key of
        Some cached \<Rightarrow>
          if now - timestamp cached < CACHE_TTL then (Some (data cached), cache)
          else (None, cache(key := None))
      | None \<Rightarrow> (None, cache(key := None)))"

definition setCache :: "int \<Rightarrow> string \<Rightarrow> 'a \<Rightarrow> 'a cache_map \<Rightarrow> 'a cache_map" where
  "setCache now key d cache = cache(key \<mapsto> \<lparr>data = d, timestamp = now\<rparr>)"

section \<open>Strings and errors\<close>

text \<open>
  A JavaScript string is a sequence of UTF-16 code units. A \<open>string\<close> of the model holds
  one \<open>char\<close> for each code unit, which covers the strings whose code units are below
  256. \<open>length\<close> is then \<^verbatim>\<open>.length\<close>. A thrown exception is a value of
  \<open>js_error\<close>, and a function that can throw returns \<open>js_error + 'a\<close>.
\<close>

definition dq :: char where
  "dq = CHR 0x22"

definition nl :: char where
  "nl = CHR 0x0A"

datatype js_error =
    Error string
  | RangeError string
  | TypeError string
  | SyntaxError string

fun message :: "js_error \<Rightarrow> string" where
  "message (Error m) = m"
| "message (RangeError m) = m"
| "message (TypeError m) = m"
| "message (SyntaxError m) = m"

text \<open>\<^verbatim>\<open>s.startsWith(p)\<close>: the first \<open>length p\<close> code units of \<open>s\<close> are \<open>p\<close>.\<close>

fun startsWith :: "string \<Rightarrow> string \<Rightarrow> bool" where
  "startsWith s [] = True"
| "startsWith [] (p # ps) = False"
| "startsWith (x # xs) (p # ps) = (x = p \<and> startsWith xs ps)"

text \<open>
  \<^verbatim>\<open>s.replace(pat, rep)\<close> with a string pattern: the first occurrence of \<open>pat\<close>
  from the left is replaced (here \<open>rep\<close> has no \<^verbatim>\<open>$\<close>), and \<open>s\<close> is returned
  as it is when \<open>pat\<close> does not occur.
\<close>

fun replace_first :: "string \<Rightarrow> string \<Rightarrow> string \<Rightarrow> string" where
  "replace_first pat rep [] = (if pat = [] then rep else [])"
| "replace_first pat rep (x # xs) =
     (if startsWith (x # xs) pat then rep @ drop (length pat) (x # xs)
      else x # replace_first pat rep xs)"

text \<open>
  The white space of \<^verbatim>\<open>\s\<close> and of \<^verbatim>\<open>trim()\<close> (WhiteSpace and LineTerminator
  of ECMAScript) among the code units below 256: tab, line feed, vertical tab, form feed,
  carriage return, space and the no-break space.
\<close>

definition is_space :: "char \<Rightarrow> bool" where
  "is_space c = (c = CHR 0x09 \<or> c = CHR 0x0A \<or> c = CHR 0x0B \<or> c = CHR 0x0C
               \<or> c = CHR 0x0D \<or> c = CHR 0x20 \<or> c = CHR 0xA0)"

definition trim :: "string \<Rightarrow> string" where
  "trim s = rev (dropWhile is_space (rev (dropWhile is_space s)))"

text \<open>\<^verbatim>\<open>xs.join(sep)\<close> on an array of strings.\<close>

fun join :: "string \<Rightarrow> string list \<Rightarrow> string" where
  "join sep [] = []"
| "join sep [x] = x"
| "join sep (x # y # ys) = x @ sep @ join sep (y # ys)"

section \<open>The query builder\<close>

definition GITHUB_OWNER :: string where
  "GITHUB_OWNER = ''durganfieldguide''"

definition GITHUB_REPO :: string where
  "GITHUB_REPO = ''dfg-console''"

text \<open>
  \<^verbatim>\<open>getQueryForQueue\<close>. At run time a \<^verbatim>\<open>QueueType\<close> is a string, and the
  \<^verbatim>\<open>default\<close> branch of the switch throws for every other string.
\<close>

definition getQueryForQueue :: "string \<Rightarrow> js_error + string" where
  "getQueryForQueue queue =
     (let base = ''repo:'' @ GITHUB_OWNER @ ''/'' @ GITHUB_REPO @ ''+state:open'' in
      if queue = ''needs-qa'' then
        Inr (base @ ''+label:'' @ [dq] @ ''needs:qa'' @ [dq])
      else if queue = ''needs-pm'' then
        Inr (base @ ''+label:'' @ [dq] @ ''needs:pm'' @ [dq])
      else if queue = ''dev-queue'' then
        Inr (base @ ''+label:'' @ [dq] @ ''status:ready'' @ [dq]
                  @ ''+label:'' @ [dq] @ ''needs:dev'' @ [dq])
      else if queue = ''ready-to-merge'' then
        Inr (base @ ''+label:'' @ [dq] @ ''status:verified'' @ [dq])
      else if queue = ''in-flight'' then
        Inr (base @ ''+label:'' @ [dq] @ ''status:in-progress'' @ [dq])
      else Inl (Error (''Unknown queue type: '' @ queue)))"

text \<open>\<^verbatim>\<open>query.replace(/"/g, '%22')\<close>: every double quote becomes \<^verbatim>\<open>%22\<close>.\<close>

definition encodeQuotes :: "string \<Rightarrow> string" where
  "encodeQuotes query = concat (map (\<lambda>c. if c = dq then ''%22'' else [c]) query)"

definition search_url :: "string \<Rightarrow> string" where
  "search_url query =
     ''https://api.github.com/search/issues?q='' @ encodeQuotes query
       @ ''&sort=updated&order=desc&per_page=50''"

section \<open>Regular expressions\<close>

text \<open>
  The two regular expressions of the source carry the flag \<^verbatim>\<open>i\<close> and use literals,
  character classes, \<^verbatim>\<open>|\<close>, \<^verbatim>\<open>?\<close>, the quantifiers \<^verbatim>\<open>*\<close>, \<^verbatim>\<open>+\<close>
  and \<^verbatim>\<open>*?\<close> on a character class, one capturing group, a lookahead and \<^verbatim>\<open>$\<close>.
  \<open>rx\<close> is the syntax of that fragment, and \<open>bt\<close> is the backtracking matcher of
  ECMAScript for it: it takes the rest of the input, the capture so far and a continuation,
  tries the alternatives in priority order (left before right, longer before shorter for a
  greedy quantifier, shorter before longer for a lazy one) and returns the first success.
\<close>

datatype rx =
    Lit string
  | Seq rx rx
  | Alt rx rx
  | Opt rx
  | Star "char \<Rightarrow> bool"
  | Plus "char \<Rightarrow> bool"
  | LazyStar "char \<Rightarrow> bool"
  | Cap rx
  | Ahead rx
  | Eoi

text \<open>
  Under the flag \<^verbatim>\<open>i\<close> and without the flag \<^verbatim>\<open>u\<close>, two code units match when
  they are equal after Canonicalize, which upper-cases a code unit but never maps one at
  or above 128 to one below. Every literal of the two patterns is ASCII, so upper-casing
  the ASCII letters decides each comparison.
\<close>

definition canonicalize :: "char \<Rightarrow> char" where
  "canonicalize c =
     (let n = (of_char c :: nat) in if 97 \<le> n \<and> n \<le> 122 then char_of (n - 32) else c)"

fun lit_match :: "string \<Rightarrow> string \<Rightarrow> string option" where
  "lit_match [] s = Some s"
| "lit_match (p # ps) [] = None"
| "lit_match (p # ps) (x # xs) =
     (if canonicalize p = canonicalize x then lit_match ps xs else None)"

type_synonym match_state = "string \<times> string option"

fun star_greedy ::
  "(char \<Rightarrow> bool) \<Rightarrow> string \<Rightarrow> string option \<Rightarrow> (string \<Rightarrow> string option \<Rightarrow> match_state option)
     \<Rightarrow> match_state option" where
  "star_greedy P [] c k = k [] c"
| "star_greedy P (x # xs) c k =
     (if P x then
        (case star_greedy P xs c k of
           Some m \<Rightarrow> Some m
         | None \<Rightarrow> k (x # xs) c)
      else k (x # xs) c)"

fun star_lazy ::
  "(char \<Rightarrow> bool) \<Rightarrow> string \<Rightarrow> string option \<Rightarrow> (string \<Rightarrow> string option \<Rightarrow> match_state option)
     \<Rightarrow> match_state option" where
  "star_lazy P [] c k = k [] c"
| "star_lazy P (x # xs) c k =
     (case k (x # xs) c of
        Some m \<Rightarrow> Some m
      | None \<Rightarrow> if P x then star_lazy P xs c k else None)"

fun bt ::
  "rx \<Rightarrow> string \<Rightarrow> string option \<Rightarrow> (string \<Rightarrow> string option \<Rightarrow> match_state option)
     \<Rightarrow> match_state option" where
  "bt (Lit w) s c k = (case lit_match w s of Some s' \<Rightarrow> k s' c | None \<Rightarrow> None)"
| "bt (Seq r1 r2) s c k = bt r1 s c (\<lambda>s' c'. bt r2 s' c' k)"
| "bt (Alt r1 r2) s c k =
     (case bt r1 s c k of Some m \<Rightarrow> Some m | None \<Rightarrow> bt r2 s c k)"
| "bt (Opt r) s c k =
     (case bt r s c (\<lambda>s' c'. if length s' = length s then None else k s' c') of
        Some m \<Rightarrow> Some m
      | None \<Rightarrow> k s c)"
| "bt (Star P) s c k = star_greedy P s c k"
| "bt (Plus P) s c k =
     (case s of [] \<Rightarrow> None | x # xs \<Rightarrow> if P x then star_greedy P xs c k else None)"
| "bt (LazyStar P) s c k = star_lazy P s c k"
| "bt (Cap r) s c k =
     bt r s c (\<lambda>s' c'. k s' (Some (take (length s - length s') s)))"
| "bt (Ahead r) s c k =
     (case bt r s c (\<lambda>s' c'. Some (s', c')) of
        Some (s', c') \<Rightarrow> k s c'
      | None \<Rightarrow> None)"
| "bt Eoi s c k = (if s = [] then k s c else None)"

text \<open>
  \<^verbatim>\<open>body.match(re)\<close> for a pattern without the flags \<^verbatim>\<open>g\<close> and \<^verbatim>\<open>y\<close>: the
  match is tried at index 0, then 1, and so on up to the end of the input, and the first
  index where it succeeds gives the result. The model returns \<open>None\<close> for \<^verbatim>\<open>null\<close>
  and otherwise what the match array holds at index 1, the capture.
\<close>

fun js_match :: "rx \<Rightarrow> string \<Rightarrow> string option option" where
  "js_match r [] =
     (case bt r [] None (\<lambda>s' c'. Some (s', c')) of
        Some (s', c') \<Rightarrow> Some c'
      | None \<Rightarrow> None)"
| "js_match r (x # xs) =
     (case bt r (x # xs) None (\<lambda>s' c'. Some (s', c')) of
        Some (s', c') \<Rightarrow> Some c'
      | None \<Rightarrow> js_match r xs)"

section \<open>Derivation rules on the body\<close>

text \<open>The class \<^verbatim>\<open>[^\s)]\<close> and the class \<^verbatim>\<open>[\s\S]\<close>.\<close>

definition url_char :: "char \<Rightarrow> bool" where
  "url_char c = (\<not> is_space c \<and> c \<noteq> CHR '')'')"

definition any_char :: "char \<Rightarrow> bool" where
  "any_char c = True"

text \<open>
  \<^verbatim>\<open>/(?:preview|deploy)(?:\s+url)?:\s*(https?:\/\/[^\s)]+)/i\<close>, the capturing group
  first: \<^verbatim>\<open>https?:\/\/[^\s)]+\<close>.
\<close>

definition url_pattern :: rx where
  "url_pattern =
     Seq (Lit ''http'')
    (Seq (Opt (Lit ''s''))
    (Seq (Lit ''://'')
         (Plus url_char)))"

definition preview_pattern :: rx where
  "preview_pattern =
     Seq (Alt (Lit ''preview'') (Lit ''deploy''))
    (Seq (Opt (Seq (Plus is_space) (Lit ''url'')))
    (Seq (Lit '':'')
    (Seq (Star is_space)
         (Cap url_pattern))))"

definition extractPreviewUrl :: "string \<Rightarrow> string option" where
  "extractPreviewUrl body =
     (case js_match preview_pattern body of
        Some m \<Rightarrow> m
      | None \<Rightarrow> None)"

text \<open>\<^verbatim>\<open>/##\s*Agent Brief\s*\n([\s\S]*?)(?=\n##|$)/i\<close>\<close>

definition brief_pattern :: rx where
  "brief_pattern =
     Seq (Lit ''##'')
    (Seq (Star is_space)
    (Seq (Lit ''Agent Brief'')
    (Seq (Star is_space)
    (Seq (Lit [nl])
    (Seq (Cap (LazyStar any_char))
         (Ahead (Alt (Lit (nl # ''##'')) Eoi)))))))"

text \<open>
  \<^verbatim>\<open>extractAgentBrief\<close>. The result \<^verbatim>\<open>null\<close> is \<open>None\<close>. The capturing group is
  not under a quantifier or an alternative, so a match always fills it; the branch for an
  empty capture is never taken.
\<close>

definition extractAgentBrief :: "string \<Rightarrow> string option" where
  "extractAgentBrief body =
     (case js_match brief_pattern body of
        None \<Rightarrow> None
      | Some None \<Rightarrow> None
      | Some (Some g) \<Rightarrow>
          (let brief = trim g in
           if length brief < 10 then None else Some brief))"

section \<open>The normalizer\<close>

record GitHubLabel =
  name :: string
  color :: string
  description :: "string option"

text \<open>
  The raw item of the search response. \<open>body\<close> is \<open>None\<close> for \<^verbatim>\<open>null\<close>, and
  \<open>pull_request\<close> holds the \<^verbatim>\<open>url\<close> of the marker object when the item has one.
\<close>

record GitHubIssue =
  number :: int
  title :: string
  html_url :: string
  body :: "string option"
  labels :: "GitHubLabel list"
  updated_at :: string
  pull_request :: "string option"

datatype card_kind = Issue | Pr

datatype verdict = PASS | FAIL | BLOCKED

datatype qa_provider = Anthropic | Openai

text \<open>
  \<^verbatim>\<open>WorkQueueCard\<close>. An optional field is an \<open>option\<close>: \<open>None\<close> is
  \<^verbatim>\<open>undefined\<close> or a key the object does not have. The fields that share a name with
  a field of the raw item carry the prefix \<open>card\<close>.
\<close>

record WorkQueueCard =
  card_type :: card_kind
  card_number :: int
  card_title :: string
  url :: string
  card_body :: string
  card_labels :: "GitHubLabel list"
  updatedAt :: string
  previewUrl :: "string option"
  statusLabels :: "string list"
  needsLabels :: "string list"
  qaGrade :: "string option"
  hasAgentBrief :: bool
  lastEventType :: "string option"
  lastEventTimestamp :: "string option"
  overallVerdict :: "verdict option"
  provenanceVerified :: "bool option"
  qaProvider :: "qa_provider option"
  qaModel :: "string option"
  qaTemperature :: "real option"

definition normalizeGitHubIssue :: "GitHubIssue \<Rightarrow> WorkQueueCard" where
  "normalizeGitHubIssue issue =
     (let labels' = map (\<lambda>l. \<lparr>name = name l, color = color l, description = description l\<rparr>)
                        (labels issue);
          body' = (case body issue of None \<Rightarrow> [] | Some b \<Rightarrow> b);
          statusLabels' = map name (filter (\<lambda>l. startsWith (name l) ''status:'') labels');
          needsLabels' = map name (filter (\<lambda>l. startsWith (name l) ''needs:'') labels');
          qaGradeLabel = find (\<lambda>l. startsWith (name l) ''qa-grade:'') labels';
          qaGrade' = (case qaGradeLabel of
                        Some l \<Rightarrow> Some (replace_first ''qa-grade:'' [] (name l))
                      | None \<Rightarrow> None);
          previewUrl' = extractPreviewUrl body';
          hasAgentBrief' = (extractAgentBrief body' \<noteq> None)
      in \<lparr>card_type = (if pull_request issue \<noteq> None then Pr else Issue),
          card_number = number issue,
          card_title = title issue,
          url = html_url issue,
          card_body = body',
          card_labels = labels',
          updatedAt = updated_at issue,
          previewUrl = previewUrl',
          statusLabels = statusLabels',
          needsLabels = needsLabels',
          qaGrade = qaGrade',
          hasAgentBrief = hasAgentBrief',
          lastEventType = None,
          lastEventTimestamp = None,
          overallVerdict = None,
          provenanceVerified = None,
          qaProvider = None,
          qaModel = None,
          qaTemperature = None\<rparr>)"

section \<open>Numbers and dates of the rate-limit message\<close>

text \<open>
  \<^verbatim>\<open>parseInt(s)\<close> with no radix: leading white space is skipped, a sign is read, a
  prefix \<^verbatim>\<open>0x\<close> or \<^verbatim>\<open>0X\<close> selects radix 16, and the longest run of digits of
  the radix is the value; \<open>None\<close> is \<^verbatim>\<open>NaN\<close>, the result when that run is empty. The
  value is kept exact. A Number is exact up to \<open>2 ^ 53\<close>, and beyond it the only use made
  of the value, the range check of \<open>new_Date\<close>, has the same outcome for the rounded value.
\<close>

definition digit_of :: "int \<Rightarrow> char \<Rightarrow> int option" where
  "digit_of radix c =
     (let n = (of_char c :: int);
          d = (if 48 \<le> n \<and> n \<le> 57 then Some (n - 48)
               else if 97 \<le> n \<and> n \<le> 122 then Some (n - 87)
               else if 65 \<le> n \<and> n \<le> 90 then Some (n - 55)
               else None)
      in case d of Some v \<Rightarrow> (if v < radix then Some v else None) | None \<Rightarrow> None)"

fun digits_value :: "int \<Rightarrow> int option \<Rightarrow> string \<Rightarrow> int option" where
  "digits_value radix acc [] = acc"
| "digits_value radix acc (c # cs) =
     (case digit_of radix c of
        None \<Rightarrow> acc
      | Some d \<Rightarrow> digits_value radix (Some ((case acc of None \<Rightarrow> 0 | Some a \<Rightarrow> a) * radix + d)) cs)"

definition parseInt :: "string \<Rightarrow> int option" where
  "parseInt str =
     (let s = dropWhile is_space str;
          sign = (if startsWith s ''-'' then - 1 else (1::int));
          s1 = (if startsWith s ''+'' \<or> startsWith s ''-'' then drop 1 s else s);
          hex = (startsWith s1 ''0x'' \<or> startsWith s1 ''0X'');
          s2 = (if hex then drop 2 s1 else s1)
      in case digits_value (if hex then 16 else 10) None s2 of
           None \<Rightarrow> None
         | Some n \<Rightarrow> Some (sign * n))"

text \<open>
  \<^verbatim>\<open>new Date(v)\<close> for a Number \<open>v\<close>: the time value is \<^verbatim>\<open>NaN\<close> when \<open>v\<close> is, or
  when \<open>v\<close> is more than 8.64e15 ms away from the epoch (TimeClip).
\<close>

definition new_Date :: "int option \<Rightarrow> int option" where
  "new_Date v =
     (case v of
        None \<Rightarrow> None
      | Some t \<Rightarrow> if 8640000000000000 < \<bar>t\<bar> then None else Some t)"

text \<open>
  The text of \<^verbatim>\<open>toISOString()\<close> for a time value in milliseconds since the epoch, in
  the proleptic Gregorian calendar: \<^verbatim>\<open>YYYY-MM-DDTHH:mm:ss.sssZ\<close>, the year with a sign
  and six digits outside 0 to 9999.
\<close>

definition digit_char :: "int \<Rightarrow> char" where
  "digit_char n = ''0123456789'' ! nat (n mod 10)"

definition pad2 :: "int \<Rightarrow> string" where
  "pad2 n = [digit_char (n div 10), digit_char n]"

definition pad3 :: "int \<Rightarrow> string" where
  "pad3 n = [digit_char (n div 100), digit_char (n div 10), digit_char n]"

definition pad4 :: "int \<Rightarrow> string" where
  "pad4 n = [digit_char (n div 1000), digit_char (n div 100), digit_char (n div 10),
             digit_char n]"

definition pad6 :: "int \<Rightarrow> string" where
  "pad6 n = [digit_char (n div 100000), digit_char (n div 10000), digit_char (n div 1000),
             digit_char (n div 100), digit_char (n div 10), digit_char n]"

definition civil_from_days :: "int \<Rightarrow> int \<times> int \<times> int" where
  "civil_from_days days =
     (let z = days + 719468;
          era = z div 146097;
          doe = z mod 146097;
          yoe = (doe - doe div 1460 + doe div 36524 - doe div 146096) div 365;
          y = yoe + era * 400;
          doy = doe - (365 * yoe + yoe div 4 - yoe div 100);
          mp = (5 * doy + 2) div 153;
          d = doy - (153 * mp + 2) div 5 + 1;
          m = (if mp < 10 then mp + 3 else mp - 9)
      in (if m \<le> 2 then y + 1 else y, m, d))"

definition iso_format :: "int \<Rightarrow> string" where
  "iso_format t =
     (let days = t div 86400000;
          ms = t mod 86400000;
          (y, m, d) = civil_from_days days;
          year = (if 0 \<le> y \<and> y \<le> 9999 then pad4 y
                  else (if y < 0 then ''-'' else ''+'') @ pad6 \<bar>y\<bar>)
      in year @ ''-'' @ pad2 m @ ''-'' @ pad2 d @ ''T''
         @ pad2 (ms div 3600000) @ '':'' @ pad2 ((ms div 60000) mod 60) @ '':''
         @ pad2 ((ms div 1000) mod 60) @ ''.'' @ pad3 (ms mod 1000) @ ''Z'')"

text \<open>\<^verbatim>\<open>toISOString()\<close> throws a RangeError on an invalid date.\<close>

definition toISOString :: "int option \<Rightarrow> js_error + string" where
  "toISOString tv =
     (case tv of
        None \<Rightarrow> Inl (RangeError ''Invalid time value'')
      | Some t \<Rightarrow> Inr (iso_format t))"

text \<open>The decimal text of a status code in a template literal.\<close>

function decimal :: "nat \<Rightarrow> string" where
  "decimal n =
     (if n < 10 then [digit_char (int n)]
      else decimal (n div 10) @ [digit_char (int n)])"
  by pat_completeness auto
termination
  by (relation "measure id") auto

section \<open>The search client\<close>

text \<open>
  The outbound call. \<open>fetch_request\<close> is what \<^verbatim>\<open>fetch\<close> is called with. The
  provider is a function from the request to the outcome of the call: the promise is
  rejected with an error, or it yields a response. Of a response the code reads the
  status, the header \<^verbatim>\<open>X-RateLimit-Reset\<close> (\<open>None\<close> when the response has none), the
  body as text in the error case and the \<^verbatim>\<open>items\<close> of the body as JSON otherwise;
  either read can throw.
\<close>

record fetch_request =
  request_url :: string
  authorization :: string
  accept :: string
  user_agent :: string

record http_response =
  status :: nat
  rate_limit_reset :: "string option"
  body_text :: "js_error + string"
  body_items :: "js_error + GitHubIssue list"

datatype fetch_outcome =
    Rejected js_error
  | Responded http_response

definition ok :: "http_response \<Rightarrow> bool" where
  "ok response = (200 \<le> status response \<and> status response \<le> 299)"

text \<open>
  The message of the rate-limit error, lines 108 to 116 of the source. A header value is
  truthy when it is present and not empty. The time stamp is computed inside the template
  literal, so an exception of \<^verbatim>\<open>toISOString\<close> leaves before the Error is built.
\<close>

definition rate_limit_error :: "string option \<Rightarrow> js_error" where
  "rate_limit_error resetTime =
     (if resetTime \<noteq> None \<and> resetTime \<noteq> Some [] then
        (case toISOString (new_Date (map_option (\<lambda>n. n * 1000) (parseInt (the resetTime)))) of
           Inl e \<Rightarrow> e
         | Inr stamp \<Rightarrow> Error (''GitHub rate limit exceeded'' @ ''. Resets at '' @ stamp))
      else Error (''GitHub rate limit exceeded'' @ []))"

text \<open>The request of lines 87 to 95: the search URL and the three headers.\<close>

definition search_request :: "string \<Rightarrow> string \<Rightarrow> fetch_request" where
  "search_request query token =
     \<lparr>request_url = search_url query,
      authorization = ''Bearer '' @ token,
      accept = ''application/vnd.github+json'',
      user_agent = ''dfg-app''\<rparr>"

text \<open>
  \<^verbatim>\<open>fetchGitHubQueue\<close>. The list of requests sent so far is threaded through, so that
  the outbound calls can be counted. The calls of \<^verbatim>\<open>console.error\<close> are left out.
\<close>

definition fetchGitHubQueue ::
  "(fetch_request \<Rightarrow> fetch_outcome) \<Rightarrow> string \<Rightarrow> string \<Rightarrow> fetch_request list
     \<Rightarrow> (js_error + WorkQueueCard list) \<times> fetch_request list" where
  "fetchGitHubQueue provider queue token sent0 =
     (case getQueryForQueue queue of
        Inl e \<Rightarrow> (Inl e, sent0)
      | Inr query \<Rightarrow>
          (let request = search_request query token;
               sent' = sent0 @ [request]
           in case provider request of
                Rejected e \<Rightarrow> (Inl e, sent')
              | Responded response \<Rightarrow>
                  if \<not> ok response then
                    (case body_text response of
                       Inl e \<Rightarrow> (Inl e, sent')
                     | Inr errorText \<Rightarrow>
                         if status response = 403 \<or> status response = 429 then
                           (Inl (rate_limit_error (rate_limit_reset response)), sent')
                         else
                           (Inl (Error (''GitHub API error: '' @ decimal (status response))), sent'))
                  else
                    (case body_items response of
                       Inl e \<Rightarrow> (Inl e, sent')
                     | Inr items \<Rightarrow> (Inr (map normalizeGitHubIssue items), sent'))))"

section \<open>The route handler\<close>

record GitHubQueueResponse =
  queue :: string
  cards :: "WorkQueueCard list"
  cached :: bool
  fetchedAt :: string

text \<open>The object \<^verbatim>\<open>{ cards, fetchedAt }\<close> that the handler stores in the cache.\<close>

record cache_payload =
  payload_cards :: "WorkQueueCard list"
  payload_fetchedAt :: string

datatype reply_body =
    ErrorBody string string
  | QueueBody GitHubQueueResponse

record http_reply =
  reply_status :: nat
  reply_body :: reply_body
  cache_control :: "string option"

text \<open>
  The state that outlives a request: the module-level cache, and the requests sent to the
  provider so far. A request is seen through \<^verbatim>\<open>searchParams.get('queue')\<close>, which is
  \<open>None\<close> when the URL has no such parameter. The clock is read up to three times while a
  request is served, and the three readings are inputs.
\<close>

record server_state =
  cache :: "cache_payload cache_map"
  sent :: "fetch_request list"

record clock_readings =
  at_getCached :: int
  at_new_Date :: int
  at_setCache :: int

definition validQueues :: "string list" where
  "validQueues = [''needs-qa'', ''needs-pm'', ''dev-queue'', ''ready-to-merge'', ''in-flight'']"

definition error_reply :: "nat \<Rightarrow> string \<Rightarrow> string \<Rightarrow> http_reply" where
  "error_reply st code msg =
     \<lparr>reply_status = st, reply_body = ErrorBody code msg, cache_control = None\<rparr>"

definition queue_reply :: "GitHubQueueResponse \<Rightarrow> http_reply" where
  "queue_reply response =
     \<lparr>reply_status = 200, reply_body = QueueBody response, cache_control = Some ''no-store''\<rparr>"

text \<open>
  \<^verbatim>\<open>GET\<close>. \<open>token\<close> is \<^verbatim>\<open>process.env.GITHUB_TOKEN\<close>; \<^verbatim>\<open>!token\<close> and
  \<^verbatim>\<open>!queue\<close> hold for an absent and for an empty string. One request is served from
  start to end, with no other request in between. \<^verbatim>\<open>new Date()\<close> is the current
  time, always a valid date, so its \<^verbatim>\<open>toISOString()\<close> is \<open>iso_format\<close> of the reading.
\<close>

definition GET ::
  "string option \<Rightarrow> (fetch_request \<Rightarrow> fetch_outcome) \<Rightarrow> clock_readings \<Rightarrow> string option
     \<Rightarrow> server_state \<Rightarrow> http_reply \<times> server_state" where
  "GET token provider clock queue_param st =
     (if token = None \<or> token = Some [] then
        (error_reply 401 ''CONFIG_ERROR'' ''GitHub token not configured'', st)
      else if queue_param = None \<or> queue_param = Some [] then
        (error_reply 400 ''MISSING_PARAMETER'' ''Queue parameter is required'', st)
      else
        (let q = the queue_param in
         if q \<notin> set validQueues then
           (error_reply 400 ''INVALID_PARAMETER''
              (''Invalid queue type. Must be one of: '' @ join '', '' validQueues), st)
         else
           (let cacheKey = ''github:queue:'' @ q;
                (cachedData, cache') = getCached (at_getCached clock) cacheKey (cache st);
                st1 = st\<lparr>cache := cache'\<rparr>
            in case cachedData of
                 Some payload \<Rightarrow>
                   (queue_reply \<lparr>queue = q, cards = payload_cards payload, cached = True,
                                 fetchedAt = payload_fetchedAt payload\<rparr>, st1)
               | None \<Rightarrow>
                   (let (result, sent') = fetchGitHubQueue provider q (the token) (sent st1);
                        st2 = st1\<lparr>sent := sent'\<rparr>
                    in case result of
                         Inl e \<Rightarrow> (error_reply 502 ''GITHUB_ERROR'' (message e), st2)
                       | Inr cs \<Rightarrow>
                           (let stamp = iso_format (at_new_Date clock);
                                st3 = st2\<lparr>cache := setCache (at_setCache clock) cacheKey
                                         \<lparr>payload_cards = cs, payload_fetchedAt = stamp\<rparr>
                                         (cache st2)\<rparr>
                            in (queue_reply \<lparr>queue = q, cards = cs, cached = False,
                                              fetchedAt = stamp\<rparr>, st3))))))"

section \<open>Sample data\<close>

text \<open>Concrete inputs, used where a property is run on an example.\<close>

definition sample_issue :: GitHubIssue where
  "sample_issue =
     \<lparr>number = 7, title = ''Add export'', html_url = ''https://github.com/o/r/issues/7'',
      body = None,
      labels = [\<lparr>name = ''status:ready'', color = ''0e8a16'', description = None\<rparr>,
                \<lparr>name = ''Status:Ready'', color = ''0e8a16'', description = None\<rparr>,
                \<lparr>name = ''needs:dev'', color = ''d93f0b'', description = Some ''dev''\<rparr>,
                \<lparr>name = ''qa-grade:A'', color = ''fbca04'', description = None\<rparr>,
                \<lparr>name = ''qa-grade:B'', color = ''fbca04'', description = None\<rparr>],
      updated_at = ''2024-01-01T00:00:00Z'', pull_request = None\<rparr>"

definition linked_issue :: GitHubIssue where
  "linked_issue =
     \<lparr>number = 12, title = ''Fix login'', html_url = ''https://github.com/o/r/pull/12'',
      body = Some (''Preview: https://example.com/x'' @ [nl] @ ''more text''),
      labels = [\<lparr>name = ''needs:qa'', color = ''d93f0b'', description = None\<rparr>,
                \<lparr>name = ''qa-grade:A'', color = ''fbca04'', description = None\<rparr>],
      updated_at = ''2024-01-02T00:00:00Z'',
      pull_request = Some ''https://api.github.com/repos/o/r/pulls/12''\<rparr>"

definition bare_issue :: GitHubIssue where
  "bare_issue =
     \<lparr>number = 13, title = ''Typo'', html_url = ''https://github.com/o/r/issues/13'',
      body = Some ''previewurl: https://example.com/x'',
      labels = [\<lparr>name = ''bug'', color = ''ee0701'', description = None\<rparr>],
      updated_at = ''2024-01-03T00:00:00Z'', pull_request = None\<rparr>"

definition sample_state :: server_state where
  "sample_state = \<lparr>cache = Map.empty, sent = []\<rparr>"

definition sample_clock :: clock_readings where
  "sample_clock =
     \<lparr>at_getCached = 1700000000000, at_new_Date = 1700000000250, at_setCache = 1700000000251\<rparr>"

definition later_clock :: clock_readings where
  "later_clock =
     \<lparr>at_getCached = 1700000059000, at_new_Date = 1700000059000, at_setCache = 1700000059000\<rparr>"

definition sample_provider :: "fetch_request \<Rightarrow> fetch_outcome" where
  "sample_provider request =
     Responded \<lparr>status = 200, rate_limit_reset = None, body_text = Inr [],
                body_items = Inr [sample_issue]\<rparr>"

definition failing_provider :: "fetch_request \<Rightarrow> fetch_outcome" where
  "failing_provider request = Rejected (TypeError ''fetch failed'')"

definition limited_provider :: "nat \<Rightarrow> string option \<Rightarrow> fetch_request \<Rightarrow> fetch_outcome" where
  "limited_provider code reset request =
     Responded \<lparr>status = code, rate_limit_reset = reset,
                body_text = Inr ''API rate limit exceeded'',
                body_items = Inl (TypeError ''items is undefined'')\<rparr>"

section \<open>The preview pattern in words\<close>

text \<open>
  The pattern of the preview URL, stated on strings and not as a regular expression.
  \<open>ci_eq\<close> compares two strings without regard to the case of ASCII letters. An
  \<^verbatim>\<open>http(s)\<close> URL is \<^verbatim>\<open>http\<close> or \<^verbatim>\<open>https\<close> in any case, then \<^verbatim>\<open>://\<close>, then
  one or more code units that are neither white space nor a closing parenthesis.
\<close>

definition ci_eq :: "string \<Rightarrow> string \<Rightarrow> bool" where
  "ci_eq a b = (map canonicalize a = map canonicalize b)"

definition is_http_url :: "string \<Rightarrow> bool" where
  "is_http_url u =
     (\<exists>scheme rest. u = scheme @ ''://'' @ rest
        \<and> (ci_eq scheme ''http'' \<or> ci_eq scheme ''https'')
        \<and> rest \<noteq> [] \<and> list_all url_char rest)"

text \<open>
  \<open>preview_at gap s u\<close>: the text \<open>s\<close> starts with a match whose URL is \<open>u\<close>. The match
  is \<^verbatim>\<open>preview\<close> or \<^verbatim>\<open>deploy\<close>; then nothing or, after a gap \<open>sp\<close>, the word
  \<^verbatim>\<open>url\<close>; then a colon; then white space or nothing; then the URL, which runs up to
  the end of the text or to the first white space or closing parenthesis. What may stand
  between the keyword and \<^verbatim>\<open>url\<close> is the parameter \<open>gap\<close>: nothing (\<open>gap_none\<close>),
  or one or more white-space code units (\<open>gap_spaces\<close>).
\<close>

definition gap_none :: "string \<Rightarrow> bool" where
  "gap_none sp = (sp = [])"

definition gap_spaces :: "string \<Rightarrow> bool" where
  "gap_spaces sp = (sp \<noteq> [] \<and> list_all is_space sp)"

definition preview_at :: "(string \<Rightarrow> bool) \<Rightarrow> string \<Rightarrow> string \<Rightarrow> bool" where
  "preview_at gap s u =
     (\<exists>kw g ws rest.
        s = kw @ g @ '':'' @ ws @ u @ rest
      \<and> (ci_eq kw ''preview'' \<or> ci_eq kw ''deploy'')
      \<and> (g = [] \<or> (\<exists>sp w. g = sp @ w \<and> gap sp \<and> ci_eq w ''url''))
      \<and> list_all is_space ws
      \<and> is_http_url u
      \<and> (rest = [] \<or> \<not> url_char (hd rest)))"

text \<open>
  \<open>first_preview gap b u\<close>: \<open>u\<close> is the URL of the first match in the text \<open>b\<close>, the
  one that starts at the least index.
\<close>

definition first_preview :: "(string \<Rightarrow> bool) \<Rightarrow> string \<Rightarrow> string \<Rightarrow> bool" where
  "first_preview gap b u =
     (\<exists>pre s. b = pre @ s \<and> preview_at gap s u
        \<and> (\<forall>pre' s' u'. b = pre' @ s' \<and> length pre' < length pre
              \<longrightarrow> \<not> preview_at gap s' u'))"

text \<open>\<open>no_preview gap b\<close>: no index of the text \<open>b\<close> starts a match.\<close>

definition no_preview :: "(string \<Rightarrow> bool) \<Rightarrow> string \<Rightarrow> bool" where
  "no_preview gap b = (\<forall>pre s u. b = pre @ s \<longrightarrow> \<not> preview_at gap s u)"

section \<open>Regular expressions as relations\<close>

text \<open>
  \<open>rmatch r s s'\<close>: the pattern \<open>r\<close> matches a prefix of \<open>s\<close> and leaves \<open>s'\<close>, with no
  regard to priorities. \<open>match_at r s\<close> is the attempt of \<open>js_match\<close> at one index.
\<close>

fun rmatch :: "rx \<Rightarrow> string \<Rightarrow> string \<Rightarrow> bool" where
  "rmatch (Lit w) s s' = (lit_match w s = Some s')"
| "rmatch (Seq r1 r2) s s' = (\<exists>m. rmatch r1 s m \<and> rmatch r2 m s')"
| "rmatch (Alt r1 r2) s s' = (rmatch r1 s s' \<or> rmatch r2 s s')"
| "rmatch (Opt r) s s' = (s' = s \<or> rmatch r s s')"
| "rmatch (Star P) s s' = (\<exists>xs. s = xs @ s' \<and> list_all P xs)"
| "rmatch (Plus P) s s' = (\<exists>xs. xs \<noteq> [] \<and> s = xs @ s' \<and> list_all P xs)"
| "rmatch (LazyStar P) s s' = (\<exists>xs. s = xs @ s' \<and> list_all P xs)"
| "rmatch (Cap r) s s' = rmatch r s s'"
| "rmatch (Ahead r) s s' = (s' = s \<and> (\<exists>t. rmatch r s t))"
| "rmatch Eoi s s' = (s = [] \<and> s' = [])"

definition match_at :: "rx \<Rightarrow> string \<Rightarrow> match_state option" where
  "match_at r s = bt r s None (\<lambda>s' c'. Some (s', c'))"


section \<open>Properties of the cache\<close>

lemma getCached_other_key:
  "k' \<noteq> k \<Longrightarrow> snd (getCached t k' c) k = c k"
  by (simp add: getCached_def split: option.splits)

lemma setCache_other_key:
  "k' \<noteq> k \<Longrightarrow> setCache t k' v c k = c k"
  by (simp add: setCache_def)

text \<open>
  Claim C2. For every key \<open>k\<close> and payload \<open>v\<close>, with \<open>put\<close> at clock reading \<open>t0\<close>
  and \<open>get\<close> at clock reading \<open>t1\<close>: while \<open>t1 - t0 < 60000\<close> the \<open>get\<close> returns \<open>v\<close>
  and leaves the cache as it is; once \<open>60000 \<le> t1 - t0\<close> it returns no entry and the
  entry is deleted, so that a later \<open>get\<close>, at any clock reading \<open>t2\<close>, returns no entry
  either; \<open>put\<close> stores \<open>v\<close> with the current reading whatever the cache held for \<open>k\<close>;
  and a \<open>get\<close> or a \<open>put\<close> for another key leaves the entry of \<open>k\<close> alone.
\<close>

theorem cache_roundtrip_and_expiry:
  fixes c :: "'a cache_map"
  shows "(t1 - t0 < 60000 \<longrightarrow>
            getCached t1 k (setCache t0 k v c) = (Some v, setCache t0 k v c))
       \<and> (60000 \<le> t1 - t0 \<longrightarrow>
            fst (getCached t1 k (setCache t0 k v c)) = None
          \<and> snd (getCached t1 k (setCache t0 k v c)) k = None
          \<and> fst (getCached t2 k (snd (getCached t1 k (setCache t0 k v c)))) = None)
       \<and> setCache t0 k v c k = Some \<lparr>data = v, timestamp = t0\<rparr>
       \<and> (k' \<noteq> k \<longrightarrow>
            snd (getCached t3 k' c) k = c k \<and> setCache t3 k' v' c k = c k)"
  by (simp add: getCached_def setCache_def CACHE_TTL_def split: option.splits)

theorem cache_roundtrip_and_expiry_witness:
  "getCached 2000 ''github:queue:needs-qa'' (setCache 1000 ''github:queue:needs-qa'' (7::nat) Map.empty)
     = (Some 7, setCache 1000 ''github:queue:needs-qa'' 7 Map.empty)
   \<and> fst (getCached 61000 ''github:queue:needs-qa''
            (setCache 1000 ''github:queue:needs-qa'' (7::nat) Map.empty)) = None
   \<and> fst (getCached 61001 ''github:queue:needs-qa''
        (snd (getCached 61000 ''github:queue:needs-qa''
            (setCache 1000 ''github:queue:needs-qa'' (7::nat) Map.empty)))) = None
   \<and> setCache 5 ''github:queue:in-flight'' (9::nat) (setCache 1000 ''github:queue:needs-qa'' 7 Map.empty)
        ''github:queue:needs-qa'' = Some \<lparr>data = 7, timestamp = 1000\<rparr>"
  using cache_roundtrip_and_expiry [where ?'a = nat and ?t1.0 = 2000 and ?t0.0 = 1000
          and k = "''github:queue:needs-qa''" and v = 7 and c = Map.empty
          and k' = "''github:queue:needs-qa''"]
        cache_roundtrip_and_expiry [where ?'a = nat and ?t1.0 = 61000 and ?t0.0 = 1000
          and k = "''github:queue:needs-qa''" and v = 7 and c = Map.empty and ?t2.0 = 61001
          and k' = "''github:queue:needs-qa''"]
        cache_roundtrip_and_expiry [where ?'a = nat and ?t1.0 = 2000 and ?t0.0 = 1000
          and k = "''github:queue:needs-qa''" and v = 7
          and c = "setCache 1000 ''github:queue:needs-qa'' 7 Map.empty"
          and k' = "''github:queue:in-flight''" and ?t3.0 = 5 and v' = 9]
  by simp

section \<open>Properties of the query builder\<close>

lemma encodeQuotes_append: "encodeQuotes (a @ b) = encodeQuotes a @ encodeQuotes b"
  by (simp add: encodeQuotes_def)

lemma encodeQuotes_Cons:
  "encodeQuotes (c # cs) = (if c = dq then ''%22'' else [c]) @ encodeQuotes cs"
  by (simp add: encodeQuotes_def)

lemma sent_fetchGitHubQueue:
  "getQueryForQueue q = Inr query \<Longrightarrow>
   snd (fetchGitHubQueue provider q token sent0) = sent0 @ [search_request query token]"
  by (simp add: fetchGitHubQueue_def Let_def split: fetch_outcome.splits sum.splits)

lemma queries_of_validQueues:
  "map getQueryForQueue validQueues =
     [Inr (''repo:durganfieldguide/dfg-console+state:open+label:'' @ [dq] @ ''needs:qa'' @ [dq]),
      Inr (''repo:durganfieldguide/dfg-console+state:open+label:'' @ [dq] @ ''needs:pm'' @ [dq]),
      Inr (''repo:durganfieldguide/dfg-console+state:open+label:'' @ [dq] @ ''status:ready'' @ [dq]
             @ ''+label:'' @ [dq] @ ''needs:dev'' @ [dq]),
      Inr (''repo:durganfieldguide/dfg-console+state:open+label:'' @ [dq] @ ''status:verified'' @ [dq]),
      Inr (''repo:durganfieldguide/dfg-console+state:open+label:'' @ [dq] @ ''status:in-progress'' @ [dq])]"
  by (simp add: validQueues_def getQueryForQueue_def GITHUB_OWNER_def GITHUB_REPO_def)

text \<open>
  Claim C3. The five queue identifiers, in the order of \<open>validQueues\<close>, give the queries
  below: the repository scope and the open-state filter, then the label filters of the
  queue and no other. The URL of the request that \<open>fetchGitHubQueue\<close> sends holds the
  query with each double quote written \<^verbatim>\<open>%22\<close> and with \<^verbatim>\<open>+\<close> and \<^verbatim>\<open>:\<close> as they
  are. The encoding works code unit by code unit, and changes the double quote only.
\<close>

theorem query_for_each_queue:
  "map getQueryForQueue validQueues =
     [Inr (''repo:durganfieldguide/dfg-console+state:open+label:'' @ [dq] @ ''needs:qa'' @ [dq]),
      Inr (''repo:durganfieldguide/dfg-console+state:open+label:'' @ [dq] @ ''needs:pm'' @ [dq]),
      Inr (''repo:durganfieldguide/dfg-console+state:open+label:'' @ [dq] @ ''status:ready'' @ [dq]
             @ ''+label:'' @ [dq] @ ''needs:dev'' @ [dq]),
      Inr (''repo:durganfieldguide/dfg-console+state:open+label:'' @ [dq] @ ''status:verified'' @ [dq]),
      Inr (''repo:durganfieldguide/dfg-console+state:open+label:'' @ [dq] @ ''status:in-progress'' @ [dq])]
   \<and> map (\<lambda>q. map request_url (snd (fetchGitHubQueue provider q token []))) validQueues =
     [[''https://api.github.com/search/issues?q=repo:durganfieldguide/dfg-console+state:open+label:%22needs:qa%22&sort=updated&order=desc&per_page=50''],
      [''https://api.github.com/search/issues?q=repo:durganfieldguide/dfg-console+state:open+label:%22needs:pm%22&sort=updated&order=desc&per_page=50''],
      [''https://api.github.com/search/issues?q=repo:durganfieldguide/dfg-console+state:open+label:%22status:ready%22+label:%22needs:dev%22&sort=updated&order=desc&per_page=50''],
      [''https://api.github.com/search/issues?q=repo:durganfieldguide/dfg-console+state:open+label:%22status:verified%22&sort=updated&order=desc&per_page=50''],
      [''https://api.github.com/search/issues?q=repo:durganfieldguide/dfg-console+state:open+label:%22status:in-progress%22&sort=updated&order=desc&per_page=50'']]
   \<and> encodeQuotes (a @ b) = encodeQuotes a @ encodeQuotes b
   \<and> encodeQuotes [c] = (if c = dq then ''%22'' else [c])"
proof -
  have u: "search_url l = ''https://api.github.com/search/issues?q='' @ encodeQuotes l
       @ ''&sort=updated&order=desc&per_page=50''" for l
    by (simp add: search_url_def)
  have urls: "map (\<lambda>q. map request_url (snd (fetchGitHubQueue provider q token []))) validQueues =
     [[''https://api.github.com/search/issues?q=repo:durganfieldguide/dfg-console+state:open+label:%22needs:qa%22&sort=updated&order=desc&per_page=50''],
      [''https://api.github.com/search/issues?q=repo:durganfieldguide/dfg-console+state:open+label:%22needs:pm%22&sort=updated&order=desc&per_page=50''],
      [''https://api.github.com/search/issues?q=repo:durganfieldguide/dfg-console+state:open+label:%22status:ready%22+label:%22needs:dev%22&sort=updated&order=desc&per_page=50''],
      [''https://api.github.com/search/issues?q=repo:durganfieldguide/dfg-console+state:open+label:%22status:verified%22&sort=updated&order=desc&per_page=50''],
      [''https://api.github.com/search/issues?q=repo:durganfieldguide/dfg-console+state:open+label:%22status:in-progress%22&sort=updated&order=desc&per_page=50'']]"
    using queries_of_validQueues
    by (simp add: validQueues_def sent_fetchGitHubQueue search_request_def u
        encodeQuotes_append encodeQuotes_Cons dq_def) (simp add: encodeQuotes_def)
  have one: "encodeQuotes [c] = (if c = dq then ''%22'' else [c])"
    by (simp add: encodeQuotes_def)
  from queries_of_validQueues urls encodeQuotes_append one show ?thesis
    by blast
qed

section \<open>Properties of the label derivation\<close>

lemma startsWith_prefix: "startsWith s p = prefix p s"
  by (induction s p rule: startsWith.induct) auto

lemma replace_first_prefix: "replace_first p r (p @ t) = r @ t"
proof (cases "p @ t")
  case Nil
  then show ?thesis by simp
next
  case (Cons a list)
  have "startsWith (p @ t) p" by (simp add: startsWith_prefix)
  then have "replace_first p r (p @ t) = r @ drop (length p) (p @ t)"
    unfolding Cons by simp
  then show ?thesis by simp
qed

lemma label_copy:
  "map (\<lambda>l. \<lparr>name = name l, color = color l, description = description l\<rparr>) ls = ls"
  by (induction ls) auto

lemma find_map_name:
  "map_option name (find (\<lambda>l. P (name l)) ls) = find P (map name ls)"
  by (induction ls) auto

lemma strip_qa_grade:
  assumes "prefix ''qa-grade:'' m"
  shows "replace_first ''qa-grade:'' [] m = drop (length ''qa-grade:'') m"
proof -
  from assms obtain t where "m = ''qa-grade:'' @ t" by (auto simp: prefix_def)
  then show ?thesis using replace_first_prefix [of "''qa-grade:''" "[]" t] by simp
qed

lemma find_SomeD: "find P xs = Some x \<Longrightarrow> x \<in> set xs \<and> P x"
  by (induction xs) (auto split: if_splits)

lemma qaGrade_normalize:
  "qaGrade (normalizeGitHubIssue issue) =
      (case find (prefix ''qa-grade:'') (map name (labels issue)) of
         None \<Rightarrow> None
       | Some n \<Rightarrow> Some (drop (length ''qa-grade:'') n))"
proof -
  have f: "find (prefix ''qa-grade:'') (map name (labels issue)) =
           map_option name (find (\<lambda>l. prefix ''qa-grade:'' (name l)) (labels issue))"
    by (simp add: find_map_name)
  show ?thesis
    unfolding f
    by (auto simp: normalizeGitHubIssue_def Let_def label_copy startsWith_prefix strip_qa_grade
        split: option.splits dest: find_Some_iff [THEN iffD1])
qed

text \<open>
  Claim C4. For every raw item, \<open>statusLabels\<close> is the list of the label names that
  have the prefix \<^verbatim>\<open>status:\<close>, and \<open>needsLabels\<close> of those that have the prefix
  \<^verbatim>\<open>needs:\<close>, in the order of the source labels and as they are written there
  (\<open>prefix\<close> compares code units, so the match is case-sensitive). \<open>qaGrade\<close> is the
  name of the first label with the prefix \<^verbatim>\<open>qa-grade:\<close> without that prefix, and is
  absent when there is no such label.
\<close>

theorem label_derivation:
  "statusLabels (normalizeGitHubIssue issue) = filter (prefix ''status:'') (map name (labels issue))
 \<and> needsLabels (normalizeGitHubIssue issue) = filter (prefix ''needs:'') (map name (labels issue))
 \<and> qaGrade (normalizeGitHubIssue issue) =
      (case find (prefix ''qa-grade:'') (map name (labels issue)) of
         None \<Rightarrow> None
       | Some n \<Rightarrow> Some (drop (length ''qa-grade:'') n))"
proof -
  have s: "statusLabels (normalizeGitHubIssue issue)
      = filter (prefix ''status:'') (map name (labels issue))"
    by (simp add: normalizeGitHubIssue_def Let_def label_copy startsWith_prefix filter_map comp_def)
  have n: "needsLabels (normalizeGitHubIssue issue)
      = filter (prefix ''needs:'') (map name (labels issue))"
    by (simp add: normalizeGitHubIssue_def Let_def label_copy startsWith_prefix filter_map comp_def)
  from s n qaGrade_normalize [of issue] show ?thesis by blast
qed

theorem label_derivation_witness:
  "statusLabels (normalizeGitHubIssue sample_issue) = [''status:ready'']
 \<and> needsLabels (normalizeGitHubIssue sample_issue) = [''needs:dev'']
 \<and> qaGrade (normalizeGitHubIssue sample_issue) = Some ''A''"
  using label_derivation [of sample_issue]
  by (simp add: sample_issue_def)


section \<open>Properties of the route handler\<close>

text \<open>
  Claim C10. Whatever the queue parameter is, also absent, empty or not one of the five
  queues, a request served while \<^verbatim>\<open>GITHUB_TOKEN\<close> is not set or is empty is answered
  with status 401 and the code \<^verbatim>\<open>CONFIG_ERROR\<close>. The state is left as it was: nothing
  was sent and the cache was not read.
\<close>

theorem config_error_first:
  "token = None \<or> token = Some [] \<Longrightarrow>
   GET token provider clock queue_param st =
     (\<lparr>reply_status = 401,
       reply_body = ErrorBody ''CONFIG_ERROR'' ''GitHub token not configured'',
       cache_control = None\<rparr>, st)"
  by (auto simp: GET_def error_reply_def)

theorem config_error_first_witness:
  "GET None sample_provider sample_clock None sample_state =
     (\<lparr>reply_status = 401,
       reply_body = ErrorBody ''CONFIG_ERROR'' ''GitHub token not configured'',
       cache_control = None\<rparr>, sample_state)
 \<and> GET (Some []) sample_provider sample_clock (Some ''bogus'') sample_state =
     (\<lparr>reply_status = 401,
       reply_body = ErrorBody ''CONFIG_ERROR'' ''GitHub token not configured'',
       cache_control = None\<rparr>, sample_state)
 \<and> GET None sample_provider sample_clock (Some ''needs-qa'') sample_state =
     (\<lparr>reply_status = 401,
       reply_body = ErrorBody ''CONFIG_ERROR'' ''GitHub token not configured'',
       cache_control = None\<rparr>, sample_state)"
  using config_error_first [of None sample_provider sample_clock None sample_state]
        config_error_first [of "Some []" sample_provider sample_clock "Some ''bogus''" sample_state]
        config_error_first [of None sample_provider sample_clock "Some ''needs-qa''" sample_state]
  by simp

text \<open>
  Claim C8 as it is written fails on two inputs. A request with no queue parameter is
  answered with 401 and not with 400 when the credential is not configured. A request
  whose queue parameter is the empty string, which is not one of the five queues, is
  answered with \<^verbatim>\<open>MISSING_PARAMETER\<close> and not with \<^verbatim>\<open>INVALID_PARAMETER\<close>.
\<close>

theorem parameter_validation_counterexample:
  "GET None sample_provider sample_clock None sample_state =
     (\<lparr>reply_status = 401,
       reply_body = ErrorBody ''CONFIG_ERROR'' ''GitHub token not configured'',
       cache_control = None\<rparr>, sample_state)
 \<and> [] \<notin> set validQueues
 \<and> GET (Some ''ghp_token'') sample_provider sample_clock (Some []) sample_state =
     (\<lparr>reply_status = 400,
       reply_body = ErrorBody ''MISSING_PARAMETER'' ''Queue parameter is required'',
       cache_control = None\<rparr>, sample_state)"
  by (simp add: GET_def error_reply_def validQueues_def)

text \<open>
  Claim C8, amended. When the credential is configured, a request whose queue parameter
  is absent or empty is answered with 400 and \<^verbatim>\<open>MISSING_PARAMETER\<close>, and a request
  whose queue parameter is a non-empty string outside the five queues is answered with
  400 and \<^verbatim>\<open>INVALID_PARAMETER\<close>, the message listing the five valid values. In both
  cases the state is the one before the request, so no request was sent to the provider.
\<close>

theorem parameter_validation:
  assumes "token = Some tk" and "tk \<noteq> []"
  shows "(queue_param = None \<or> queue_param = Some [] \<longrightarrow>
            GET token provider clock queue_param st =
              (\<lparr>reply_status = 400,
                reply_body = ErrorBody ''MISSING_PARAMETER'' ''Queue parameter is required'',
                cache_control = None\<rparr>, st))
       \<and> (queue_param = Some q \<and> q \<noteq> [] \<and> q \<notin> set validQueues \<longrightarrow>
            GET token provider clock queue_param st =
              (\<lparr>reply_status = 400,
                reply_body = ErrorBody ''INVALID_PARAMETER''
                  ''Invalid queue type. Must be one of: needs-qa, needs-pm, dev-queue, ready-to-merge, in-flight'',
                cache_control = None\<rparr>, st))"
  using assms by (auto simp: GET_def error_reply_def validQueues_def)

theorem parameter_validation_witness:
  "GET (Some ''ghp_token'') sample_provider sample_clock None sample_state =
              (\<lparr>reply_status = 400,
                reply_body = ErrorBody ''MISSING_PARAMETER'' ''Queue parameter is required'',
                cache_control = None\<rparr>, sample_state)
  \<and> GET (Some ''ghp_token'') sample_provider sample_clock (Some ''bogus'') sample_state =
              (\<lparr>reply_status = 400,
                reply_body = ErrorBody ''INVALID_PARAMETER''
                  ''Invalid queue type. Must be one of: needs-qa, needs-pm, dev-queue, ready-to-merge, in-flight'',
                cache_control = None\<rparr>, sample_state)
  \<and> sent (snd (GET (Some ''ghp_token'') sample_provider sample_clock (Some ''bogus'') sample_state)) = []"
  using parameter_validation [of "Some ''ghp_token''" "''ghp_token''" None sample_provider sample_clock sample_state "''bogus''"]
        parameter_validation [of "Some ''ghp_token''" "''ghp_token''" "Some ''bogus''" sample_provider sample_clock sample_state "''bogus''"]
  by (simp add: validQueues_def sample_state_def)

lemma valid_queue_has_query:
  "q \<in> set validQueues \<Longrightarrow> \<exists>query. getQueryForQueue q = Inr query"
  by (auto simp: validQueues_def getQueryForQueue_def Let_def)

lemma valid_queue_not_empty: "q \<in> set validQueues \<Longrightarrow> q \<noteq> []"
  by (auto simp: validQueues_def)

lemma fetch_success:
  assumes "getQueryForQueue q = Inr query"
    and "provider (search_request query tk) = Responded r"
    and "ok r" and "body_items r = Inr items"
  shows "fetchGitHubQueue provider q tk sent0 =
           (Inr (map normalizeGitHubIssue items), sent0 @ [search_request query tk])"
  using assms by (simp add: fetchGitHubQueue_def Let_def)

lemma getCached_miss:
  "(\<forall>e. c k = Some e \<longrightarrow> 60000 \<le> t - timestamp e) \<Longrightarrow> getCached t k c = (None, c(k := None))"
  by (auto simp: getCached_def CACHE_TTL_def split: option.splits)

lemma getCached_hit:
  "c k = Some e \<Longrightarrow> t - timestamp e < 60000 \<Longrightarrow> getCached t k c = (Some (data e), c)"
  by (auto simp: getCached_def CACHE_TTL_def split: option.splits)

text \<open>
  Claim C1 as it is written fails on two inputs, both with a valid queue and an empty
  cache. While the credential is not configured the reply is 401 and nothing is sent.
  When the provider answers 500, one request is sent, the reply is 502 with the code
  \<^verbatim>\<open>GITHUB_ERROR\<close>, and nothing is stored in the cache.
\<close>

lemma decimal_500: "decimal 500 = ''500''"
  by code_simp

theorem miss_then_hit_counterexample:
  "GET None sample_provider sample_clock (Some ''needs-qa'') sample_state =
     (\<lparr>reply_status = 401,
       reply_body = ErrorBody ''CONFIG_ERROR'' ''GitHub token not configured'',
       cache_control = None\<rparr>, sample_state)
 \<and> sent sample_state = []
 \<and> fst (GET (Some ''ghp_token'') (limited_provider 500 None) sample_clock (Some ''needs-qa'')
          sample_state) =
     \<lparr>reply_status = 502,
      reply_body = ErrorBody ''GITHUB_ERROR'' ''GitHub API error: 500'',
      cache_control = None\<rparr>
 \<and> cache (snd (GET (Some ''ghp_token'') (limited_provider 500 None) sample_clock
               (Some ''needs-qa'') sample_state)) ''github:queue:needs-qa'' = None"
proof -
  have q: "getQueryForQueue ''needs-qa'' =
      Inr (''repo:durganfieldguide/dfg-console+state:open+label:'' @ [dq] @ ''needs:qa'' @ [dq])"
    by (simp add: getQueryForQueue_def GITHUB_OWNER_def GITHUB_REPO_def)
  have f: "fetchGitHubQueue (limited_provider 500 None) ''needs-qa'' ''ghp_token'' s0 =
      (Inl (Error ''GitHub API error: 500''),
       s0 @ [search_request
          (''repo:durganfieldguide/dfg-console+state:open+label:'' @ [dq] @ ''needs:qa'' @ [dq])
          ''ghp_token''])" for s0
    by (simp add: fetchGitHubQueue_def q Let_def limited_provider_def ok_def decimal_500
        del: decimal.simps)
  have a: "GET None sample_provider sample_clock (Some ''needs-qa'') sample_state =
     (\<lparr>reply_status = 401,
       reply_body = ErrorBody ''CONFIG_ERROR'' ''GitHub token not configured'',
       cache_control = None\<rparr>, sample_state)"
    by (simp add: GET_def error_reply_def)
  have b: "GET (Some ''ghp_token'') (limited_provider 500 None) sample_clock (Some ''needs-qa'')
          sample_state =
     (\<lparr>reply_status = 502,
       reply_body = ErrorBody ''GITHUB_ERROR'' ''GitHub API error: 500'',
       cache_control = None\<rparr>,
      \<lparr>cache = Map.empty,
       sent = [search_request
          (''repo:durganfieldguide/dfg-console+state:open+label:'' @ [dq] @ ''needs:qa'' @ [dq])
          ''ghp_token'']\<rparr>)"
    by (simp add: GET_def Let_def validQueues_def getCached_def sample_state_def f error_reply_def)
  from a b show ?thesis by (simp add: sample_state_def)
qed


text \<open>
  Claim C1, amended. A request for a valid queue is served while the credential is
  configured and the cache holds no live entry for the queue (none at all, or one stored
  60000 ms or more before the clock reading of the look-up), and the provider answers the
  search request with a 2xx response whose body holds the items. Then the reply is 200
  with the normalized items as cards, \<open>cached = False\<close> and the ISO text of the current
  time; exactly one request, the search request, is added to those sent; and the cache
  holds the cards and that time stamp for the queue. A second request for the queue whose
  look-up happens less than 60000 ms after the store is answered with the same cards,
  \<open>cached = True\<close> and the stored time stamp, whatever the provider would answer, and
  leaves the state as it is, so it sends nothing.
\<close>

theorem miss_then_hit:
  assumes tok: "tk \<noteq> []" "tk2 \<noteq> []"
    and valid: "q \<in> set validQueues"
    and miss: "\<forall>e. cache st (''github:queue:'' @ q) = Some e
                 \<longrightarrow> 60000 \<le> at_getCached clock - timestamp e"
    and query: "getQueryForQueue q = Inr query"
    and answer: "provider (search_request query tk) = Responded r" "ok r"
                "body_items r = Inr items"
    and within: "at_getCached clock2 - at_setCache clock < 60000"
  shows "(let cs = map normalizeGitHubIssue items;
              stamp = iso_format (at_new_Date clock);
              st' = \<lparr>cache = (cache st)(''github:queue:'' @ q \<mapsto>
                              \<lparr>data = \<lparr>payload_cards = cs, payload_fetchedAt = stamp\<rparr>,
                               timestamp = at_setCache clock\<rparr>),
                     sent = sent st @ [search_request query tk]\<rparr>
          in GET (Some tk) provider clock (Some q) st =
               (\<lparr>reply_status = 200,
                 reply_body = QueueBody \<lparr>queue = q, cards = cs, cached = False, fetchedAt = stamp\<rparr>,
                 cache_control = Some ''no-store''\<rparr>, st')
           \<and> GET (Some tk2) provider2 clock2 (Some q) st' =
               (\<lparr>reply_status = 200,
                 reply_body = QueueBody \<lparr>queue = q, cards = cs, cached = True, fetchedAt = stamp\<rparr>,
                 cache_control = Some ''no-store''\<rparr>, st'))"
proof -
  have ne: "q \<noteq> []" using valid by (rule valid_queue_not_empty)
  have first: "GET (Some tk) provider clock (Some q) st =
      (\<lparr>reply_status = 200,
        reply_body = QueueBody \<lparr>queue = q, cards = map normalizeGitHubIssue items, cached = False,
                       fetchedAt = iso_format (at_new_Date clock)\<rparr>,
        cache_control = Some ''no-store''\<rparr>,
       \<lparr>cache = (cache st)(''github:queue:'' @ q \<mapsto>
                   \<lparr>data = \<lparr>payload_cards = map normalizeGitHubIssue items,
                            payload_fetchedAt = iso_format (at_new_Date clock)\<rparr>,
                    timestamp = at_setCache clock\<rparr>),
        sent = sent st @ [search_request query tk]\<rparr>)"
    using tok valid ne
    by (simp add: GET_def Let_def
        getCached_miss [of "cache st" "''github:queue:'' @ q" "at_getCached clock", OF miss]
        fetch_success [of q query provider tk r items, OF query answer] setCache_def queue_reply_def
        del: append.simps)
  have second: "GET (Some tk2) provider2 clock2 (Some q)
       \<lparr>cache = (cache st)(''github:queue:'' @ q \<mapsto>
                   \<lparr>data = \<lparr>payload_cards = map normalizeGitHubIssue items,
                            payload_fetchedAt = iso_format (at_new_Date clock)\<rparr>,
                    timestamp = at_setCache clock\<rparr>),
        sent = sent st @ [search_request query tk]\<rparr> =
      (\<lparr>reply_status = 200,
        reply_body = QueueBody \<lparr>queue = q, cards = map normalizeGitHubIssue items, cached = True,
                       fetchedAt = iso_format (at_new_Date clock)\<rparr>,
        cache_control = Some ''no-store''\<rparr>,
       \<lparr>cache = (cache st)(''github:queue:'' @ q \<mapsto>
                   \<lparr>data = \<lparr>payload_cards = map normalizeGitHubIssue items,
                            payload_fetchedAt = iso_format (at_new_Date clock)\<rparr>,
                    timestamp = at_setCache clock\<rparr>),
        sent = sent st @ [search_request query tk]\<rparr>)"
    using tok valid ne within
    by (simp add: GET_def Let_def getCached_hit queue_reply_def del: append.simps)
  from first second show ?thesis by (simp add: Let_def)
qed

lemma iso_sample: "iso_format 1700000000250 = ''2023-11-14T22:13:20.250Z''"
  by code_simp

theorem miss_then_hit_witness:
  "fst (GET (Some ''ghp_token'') sample_provider sample_clock (Some ''needs-qa'') sample_state) =
     \<lparr>reply_status = 200,
      reply_body = QueueBody \<lparr>queue = ''needs-qa'', cards = [normalizeGitHubIssue sample_issue],
                     cached = False, fetchedAt = ''2023-11-14T22:13:20.250Z''\<rparr>,
      cache_control = Some ''no-store''\<rparr>
 \<and> map request_url
       (sent (snd (GET (Some ''ghp_token'') sample_provider sample_clock (Some ''needs-qa'')
                     sample_state))) =
     [''https://api.github.com/search/issues?q=repo:durganfieldguide/dfg-console+state:open+label:%22needs:qa%22&sort=updated&order=desc&per_page=50'']
 \<and> GET (Some ''ghp_token'') failing_provider later_clock (Some ''needs-qa'')
       (snd (GET (Some ''ghp_token'') sample_provider sample_clock (Some ''needs-qa'') sample_state)) =
     (\<lparr>reply_status = 200,
       reply_body = QueueBody \<lparr>queue = ''needs-qa'', cards = [normalizeGitHubIssue sample_issue],
                      cached = True, fetchedAt = ''2023-11-14T22:13:20.250Z''\<rparr>,
       cache_control = Some ''no-store''\<rparr>,
      snd (GET (Some ''ghp_token'') sample_provider sample_clock (Some ''needs-qa'') sample_state))"
proof -
  let ?query = "''repo:durganfieldguide/dfg-console+state:open+label:'' @ [dq] @ ''needs:qa'' @ [dq]"
  let ?r = "\<lparr>status = 200, rate_limit_reset = None, body_text = Inr [],
                   body_items = Inr [sample_issue]\<rparr>"
  have q: "getQueryForQueue ''needs-qa'' = Inr ?query"
    by (simp add: getQueryForQueue_def GITHUB_OWNER_def GITHUB_REPO_def)
  have u: "request_url (search_request ?query tk) =
      ''https://api.github.com/search/issues?q=repo:durganfieldguide/dfg-console+state:open+label:%22needs:qa%22&sort=updated&order=desc&per_page=50''" for tk
    by (simp add: search_request_def search_url_def encodeQuotes_def dq_def)
  have h1: "''ghp_token'' \<noteq> []" by simp
  have h3: "''needs-qa'' \<in> set validQueues" by (simp add: validQueues_def)
  have h4: "\<forall>e. cache sample_state (''github:queue:'' @ ''needs-qa'') = Some e
              \<longrightarrow> 60000 \<le> at_getCached sample_clock - timestamp e"
    by (simp add: sample_state_def)
  have h6: "sample_provider (search_request ?query ''ghp_token'') = Responded ?r"
    by (simp add: sample_provider_def)
  have h7: "ok ?r" by (simp add: ok_def)
  have h8: "body_items ?r = Inr [sample_issue]" by simp
  have h9: "at_getCached later_clock - at_setCache sample_clock < 60000"
    by (simp add: later_clock_def sample_clock_def)
  have stamp: "iso_format (at_new_Date sample_clock) = ''2023-11-14T22:13:20.250Z''"
    by (simp add: sample_clock_def iso_sample)
  note m = miss_then_hit [where provider = sample_provider and ?provider2.0 = failing_provider
      and st = sample_state, OF h1 h1 h3 h4 q h6 h7 h8 h9, unfolded Let_def stamp]
  from m have first: "GET (Some ''ghp_token'') sample_provider sample_clock (Some ''needs-qa'')
      sample_state = (\<lparr>reply_status = 200,
      reply_body = QueueBody \<lparr>queue = ''needs-qa'', cards = [normalizeGitHubIssue sample_issue],
                     cached = False, fetchedAt = ''2023-11-14T22:13:20.250Z''\<rparr>,
      cache_control = Some ''no-store''\<rparr>,
      \<lparr>cache = (cache sample_state)(''github:queue:'' @ ''needs-qa'' \<mapsto>
                  \<lparr>data = \<lparr>payload_cards = map normalizeGitHubIssue [sample_issue],
                           payload_fetchedAt = ''2023-11-14T22:13:20.250Z''\<rparr>,
                   timestamp = at_setCache sample_clock\<rparr>),
        sent = sent sample_state @ [search_request ?query ''ghp_token'']\<rparr>)"
    by simp
  show ?thesis
    unfolding first fst_conv snd_conv
    using m u by (simp add: sample_state_def)
qed

section \<open>Properties of the search client\<close>

lemma fetch_rate_limited:
  assumes "getQueryForQueue q = Inr query"
    and "provider (search_request query tk) = Responded r"
    and "status r = 403 \<or> status r = 429"
    and "body_text r = Inr errorText"
  shows "fetchGitHubQueue provider q tk sent0 =
           (Inl (rate_limit_error (rate_limit_reset r)), sent0 @ [search_request query tk])"
  using assms by (auto simp: fetchGitHubQueue_def Let_def ok_def)

lemma rate_limit_error_cases:
  "rate_limit_error None = Error ''GitHub rate limit exceeded''"
  "rate_limit_error (Some []) = Error ''GitHub rate limit exceeded''"
  "h \<noteq> [] \<Longrightarrow> parseInt h = Some n \<Longrightarrow> \<bar>n * 1000\<bar> \<le> 8640000000000000 \<Longrightarrow>
     rate_limit_error (Some h) =
       Error (''GitHub rate limit exceeded. Resets at '' @ iso_format (n * 1000))"
  "h \<noteq> [] \<Longrightarrow> parseInt h = None \<Longrightarrow>
     rate_limit_error (Some h) = RangeError ''Invalid time value''"
  by (simp_all add: rate_limit_error_def toISOString_def new_Date_def)

text \<open>
  The rate-limit branch, for every response with status 403 or 429 whose body text can be
  read: the fetch never returns cards. Without the header \<^verbatim>\<open>X-RateLimit-Reset\<close>, or
  with an empty one, the error is \<^verbatim>\<open>GitHub rate limit exceeded\<close>. With a header that
  \<^verbatim>\<open>parseInt\<close> reads as \<open>n\<close> seconds, for \<open>n * 1000\<close> in the range of a Date, the
  message ends with the ISO text of that instant.
\<close>

theorem rate_limit_message:
  assumes "getQueryForQueue q = Inr query"
    and "provider (search_request query tk) = Responded r"
    and "status r = 403 \<or> status r = 429"
    and "body_text r = Inr errorText"
  shows "(\<forall>cs. fst (fetchGitHubQueue provider q tk sent0) \<noteq> Inr cs)
       \<and> (rate_limit_reset r = None \<or> rate_limit_reset r = Some [] \<longrightarrow>
            fst (fetchGitHubQueue provider q tk sent0) = Inl (Error ''GitHub rate limit exceeded''))
       \<and> (rate_limit_reset r = Some h \<and> h \<noteq> [] \<and> parseInt h = Some n
            \<and> \<bar>n * 1000\<bar> \<le> 8640000000000000 \<longrightarrow>
            fst (fetchGitHubQueue provider q tk sent0) =
              Inl (Error (''GitHub rate limit exceeded. Resets at '' @ iso_format (n * 1000))))"
  using fetch_rate_limited [where provider = provider and r = r and ?sent0.0 = sent0, OF assms]
  by (auto simp: rate_limit_error_cases)

lemma parseInt_sample: "parseInt ''1700000000'' = Some 1700000000"
  by code_simp

lemma iso_sample_reset: "iso_format 1700000000000 = ''2023-11-14T22:13:20.000Z''"
  by code_simp

theorem rate_limit_message_witness:
  "fst (fetchGitHubQueue (limited_provider 429 None) ''in-flight'' ''ghp_token'' [])
     = Inl (Error ''GitHub rate limit exceeded'')
 \<and> fst (fetchGitHubQueue (limited_provider 403 (Some ''1700000000'')) ''in-flight'' ''ghp_token'' [])
     = Inl (Error ''GitHub rate limit exceeded. Resets at 2023-11-14T22:13:20.000Z'')"
proof -
  have q: "getQueryForQueue ''in-flight'' =
      Inr (''repo:durganfieldguide/dfg-console+state:open+label:'' @ [dq] @ ''status:in-progress'' @ [dq])"
    by (simp add: getQueryForQueue_def GITHUB_OWNER_def GITHUB_REPO_def)
  have a: "fst (fetchGitHubQueue (limited_provider 429 None) ''in-flight'' ''ghp_token'' [])
     = Inl (Error ''GitHub rate limit exceeded'')"
    using rate_limit_message [OF q, where provider = "limited_provider 429 None"
        and tk = "''ghp_token''" and ?sent0.0 = "[]"]
    by (simp add: limited_provider_def)
  have b: "fst (fetchGitHubQueue (limited_provider 403 (Some ''1700000000'')) ''in-flight'' ''ghp_token'' [])
     = Inl (Error ''GitHub rate limit exceeded. Resets at 2023-11-14T22:13:20.000Z'')"
    using rate_limit_message [OF q, where provider = "limited_provider 403 (Some ''1700000000'')"
        and tk = "''ghp_token''" and ?sent0.0 = "[]" and h = "''1700000000''" and n = 1700000000]
    by (simp add: limited_provider_def parseInt_sample iso_sample_reset)
  from a b show ?thesis by simp
qed

text \<open>
  Claim C7, at a response with status 403 whose header \<^verbatim>\<open>X-RateLimit-Reset\<close> holds a
  date in the HTTP format instead of a number of seconds. \<^verbatim>\<open>parseInt\<close> gives
  \<^verbatim>\<open>NaN\<close>, the Date is invalid and \<^verbatim>\<open>toISOString\<close> throws inside the template
  literal: the fetch fails with the RangeError \<^verbatim>\<open>Invalid time value\<close>, not with the
  rate-limit error, and the handler answers 502 with that message.
\<close>

theorem rate_limit_reset_not_a_number:
  "fst (fetchGitHubQueue (limited_provider 403 (Some ''Wed, 21 Oct 2015 07:28:00 GMT''))
          ''needs-qa'' ''ghp_token'' [])
     = Inl (RangeError ''Invalid time value'')
 \<and> fst (GET (Some ''ghp_token'') (limited_provider 403 (Some ''Wed, 21 Oct 2015 07:28:00 GMT''))
          sample_clock (Some ''needs-qa'') sample_state)
     = \<lparr>reply_status = 502,
        reply_body = ErrorBody ''GITHUB_ERROR'' ''Invalid time value'',
        cache_control = None\<rparr>"
proof -
  have q: "getQueryForQueue ''needs-qa'' =
      Inr (''repo:durganfieldguide/dfg-console+state:open+label:'' @ [dq] @ ''needs:qa'' @ [dq])"
    by (simp add: getQueryForQueue_def GITHUB_OWNER_def GITHUB_REPO_def)
  have p: "parseInt ''Wed, 21 Oct 2015 07:28:00 GMT'' = None"
    by code_simp
  have e: "rate_limit_error (Some ''Wed, 21 Oct 2015 07:28:00 GMT'') = RangeError ''Invalid time value''"
    using p by (simp add: rate_limit_error_cases(4))
  have f: "fetchGitHubQueue (limited_provider 403 (Some ''Wed, 21 Oct 2015 07:28:00 GMT''))
          ''needs-qa'' ''ghp_token'' s0
     = (Inl (RangeError ''Invalid time value''),
        s0 @ [search_request (''repo:durganfieldguide/dfg-console+state:open+label:'' @ [dq] @ ''needs:qa'' @ [dq]) ''ghp_token''])" for s0
    using fetch_rate_limited [OF q, of "limited_provider 403 (Some ''Wed, 21 Oct 2015 07:28:00 GMT'')" "''ghp_token''" _ _ s0] e
    by (simp add: limited_provider_def)
  have g: "fst (GET (Some ''ghp_token'') (limited_provider 403 (Some ''Wed, 21 Oct 2015 07:28:00 GMT''))
          sample_clock (Some ''needs-qa'') sample_state)
     = \<lparr>reply_status = 502,
        reply_body = ErrorBody ''GITHUB_ERROR'' ''Invalid time value'',
        cache_control = None\<rparr>"
    by (simp add: GET_def Let_def validQueues_def getCached_def sample_state_def f error_reply_def)
  from f [of "[]"] g show ?thesis by simp
qed

section \<open>Properties of the agent-brief detection\<close>

text \<open>
  Claim C6, at a body whose section \<^verbatim>\<open>Agent Brief\<close> is empty and is followed by another
  heading. The newline that ends the heading line is consumed by \<^verbatim>\<open>\s*\n\<close>, so the
  lookahead \<^verbatim>\<open>\n##\<close> cannot stop the capture at the heading that comes next: the
  capture runs into the next section, and \<open>hasAgentBrief\<close> is true although the text
  between the heading and the next heading is empty.
\<close>

theorem agent_brief_empty_section:
  "extractAgentBrief (''## Agent Brief'' @ [nl, nl] @ ''## Notes'' @ [nl] @ ''See the linked design document.'')
     = Some (''## Notes'' @ [nl] @ ''See the linked design document.'')
 \<and> hasAgentBrief (normalizeGitHubIssue (sample_issue\<lparr>body :=
       Some (''## Agent Brief'' @ [nl, nl] @ ''## Notes'' @ [nl] @ ''See the linked design document.'')\<rparr>))"
proof -
  have e: "extractAgentBrief (''## Agent Brief'' @ [nl, nl] @ ''## Notes'' @ [nl] @ ''See the linked design document.'')
     = Some (''## Notes'' @ [nl] @ ''See the linked design document.'')"
    by code_simp
  then show ?thesis
    by (simp add: normalizeGitHubIssue_def Let_def sample_issue_def)
qed

text \<open>
  The three bodies that the specification gives for the agent-brief detection: a section
  of sufficient length before the next heading, a section shorter than 10 code units,
  and a body without the heading.
\<close>

theorem agent_brief_examples:
  "extractAgentBrief (''## Agent Brief'' @ [nl]
       @ ''This is a sufficiently long brief description.'' @ [nl] @ ''## Other'')
     = Some ''This is a sufficiently long brief description.''
 \<and> extractAgentBrief (''## Agent Brief'' @ [nl] @ ''short'') = None
 \<and> extractAgentBrief ''Nothing to see in this body.'' = None"
proof -
  have a: "extractAgentBrief (''## Agent Brief'' @ [nl]
       @ ''This is a sufficiently long brief description.'' @ [nl] @ ''## Other'')
     = Some ''This is a sufficiently long brief description.''"
    by code_simp
  have b: "extractAgentBrief (''## Agent Brief'' @ [nl] @ ''short'') = None"
    by code_simp
  have c: "extractAgentBrief ''Nothing to see in this body.'' = None"
    by code_simp
  from a b c show ?thesis by simp
qed

section \<open>Properties of the matcher\<close>

text \<open>
  The comparison of code units in terms of their codes; what \<open>lit_match\<close> accepts; the
  matcher against the relation \<open>rmatch\<close> (whatever \<open>bt\<close> returns comes from a match of
  the relation); and \<open>js_match\<close> as the attempt at the least index that succeeds.
\<close>

lemma canon_code:
  "(of_char (canonicalize c) :: nat) =
     (if 97 \<le> (of_char c :: nat) \<and> (of_char c :: nat) \<le> 122 then of_char c - 32 else of_char c)"
proof (cases "97 \<le> (of_char c :: nat) \<and> (of_char c :: nat) \<le> 122")
  case True
  then have "(of_char c - 32 :: nat) < 256" by linarith
  then have "(of_char c - 32 :: nat) mod 256 = of_char c - 32" by simp
  with True show ?thesis by (simp add: canonicalize_def Let_def)
next
  case False
  then show ?thesis by (auto simp: canonicalize_def Let_def)
qed

lemma canon_eq_iff:
  "canonicalize a = canonicalize b \<longleftrightarrow>
     (if 97 \<le> (of_char a :: nat) \<and> (of_char a :: nat) \<le> 122 then of_char a - 32 else of_char a)
   = (if 97 \<le> (of_char b :: nat) \<and> (of_char b :: nat) \<le> 122 then of_char b - 32 else (of_char b :: nat))"
proof -
  have "canonicalize a = canonicalize b \<longleftrightarrow>
      (of_char (canonicalize a) :: nat) = of_char (canonicalize b)"
    by simp
  then show ?thesis by (simp only: canon_code)
qed

lemma is_space_code:
  "is_space c \<longleftrightarrow> (of_char c :: nat) \<in> {9, 10, 11, 12, 13, 32, 160}"
proof -
  have e: "c = d \<longleftrightarrow> (of_char c :: nat) = of_char d" for d by simp
  show ?thesis unfolding is_space_def
    by (simp add: e [of "CHR 0x09"] e [of "CHR 0x0A"] e [of "CHR 0x0B"] e [of "CHR 0x0C"]
        e [of "CHR 0x0D"] e [of "CHR 0x20"] e [of "CHR 0xA0"] del: of_char_eq_iff)
qed

lemma url_char_code:
  "url_char c \<longleftrightarrow> (of_char c :: nat) \<notin> {9, 10, 11, 12, 13, 32, 160, 41}"
proof -
  have "c = CHR '')'' \<longleftrightarrow> (of_char c :: nat) = of_char CHR '')''" by (simp only: of_char_eq_iff)
  then show ?thesis unfolding url_char_def is_space_code by (simp del: of_char_eq_iff)
qed

lemma lit_match_Some_iff:
  "lit_match w s = Some s' \<longleftrightarrow> (\<exists>w'. s = w' @ s' \<and> ci_eq w' w)"
  by (induction w s rule: lit_match.induct)
     (auto simp: ci_eq_def Cons_eq_append_conv)

lemma ci_eq_length: "ci_eq a b \<Longrightarrow> length a = length b"
  unfolding ci_eq_def by (metis length_map)

lemma star_greedy_sound:
  "star_greedy P s c k = Some m \<Longrightarrow> \<exists>xs s'. s = xs @ s' \<and> list_all P xs \<and> k s' c = Some m"
proof (induction s)
  case Nil
  then show ?case by simp
next
  case (Cons x s)
  show ?case
  proof (cases "P x \<and> star_greedy P s c k \<noteq> None")
    case True
    with Cons.prems have "star_greedy P s c k = Some m" by (auto split: option.splits)
    from Cons.IH [OF this] obtain xs s' where "s = xs @ s'" "list_all P xs" "k s' c = Some m"
      by blast
    with True have "x # s = (x # xs) @ s' \<and> list_all P (x # xs) \<and> k s' c = Some m" by simp
    then show ?thesis by blast
  next
    case False
    with Cons.prems have "k (x # s) c = Some m" by (auto split: option.splits if_splits)
    then have "x # s = [] @ (x # s) \<and> list_all P [] \<and> k (x # s) c = Some m" by simp
    then show ?thesis by blast
  qed
qed

lemma star_lazy_sound:
  "star_lazy P s c k = Some m \<Longrightarrow> \<exists>xs s'. s = xs @ s' \<and> list_all P xs \<and> k s' c = Some m"
proof (induction s)
  case Nil
  then show ?case by simp
next
  case (Cons x s)
  show ?case
  proof (cases "k (x # s) c")
    case (Some a)
    with Cons.prems have "k (x # s) c = Some m" by simp
    then have "x # s = [] @ (x # s) \<and> list_all P [] \<and> k (x # s) c = Some m" by simp
    then show ?thesis by blast
  next
    case None
    with Cons.prems have px: "P x" and "star_lazy P s c k = Some m"
      by (auto split: if_splits)
    from Cons.IH [OF this(2)] obtain xs s' where "s = xs @ s'" "list_all P xs" "k s' c = Some m"
      by blast
    with px have "x # s = (x # xs) @ s' \<and> list_all P (x # xs) \<and> k s' c = Some m" by simp
    then show ?thesis by blast
  qed
qed

lemma bt_sound:
  "bt r s c k = Some m \<Longrightarrow> \<exists>s' c'. rmatch r s s' \<and> k s' c' = Some m"
proof (induction r arbitrary: s c k m)
  case (Lit w)
  then obtain s' where "lit_match w s = Some s'" "k s' c = Some m"
    by (cases "lit_match w s") auto
  then show ?case by auto
next
  case (Seq r1 r2)
  from Seq.prems have "bt r1 s c (\<lambda>s' c'. bt r2 s' c' k) = Some m" by simp
  from Seq.IH(1) [OF this] obtain s1 c1 where a: "rmatch r1 s s1" "bt r2 s1 c1 k = Some m" by blast
  from Seq.IH(2) [OF a(2)] obtain s2 c2 where "rmatch r2 s1 s2" "k s2 c2 = Some m" by blast
  with a show ?case by auto
next
  case (Alt r1 r2)
  show ?case
  proof (cases "bt r1 s c k")
    case None
    with Alt.prems have "bt r2 s c k = Some m" by simp
    from Alt.IH(2) [OF this] show ?thesis by auto
  next
    case (Some a)
    with Alt.prems have "bt r1 s c k = Some m" by simp
    from Alt.IH(1) [OF this] show ?thesis by auto
  qed
next
  case (Opt r)
  show ?case
  proof (cases "bt r s c (\<lambda>s' c'. if length s' = length s then None else k s' c')")
    case None
    with Opt.prems have "k s c = Some m" by simp
    then show ?thesis by auto
  next
    case (Some a)
    with Opt.prems have "bt r s c (\<lambda>s' c'. if length s' = length s then None else k s' c') = Some m"
      by simp
    from Opt.IH [OF this] obtain s' c' where
      o: "rmatch r s s'" "(if length s' = length s then None else k s' c') = Some m"
      by blast
    from o(2) have "k s' c' = Some m" by (cases "length s' = length s") auto
    with o(1) show ?thesis by auto
  qed
next
  case (Star P)
  then show ?case using star_greedy_sound [of P s c k m] by auto
next
  case (Plus P)
  from Plus obtain x xs where s: "s = x # xs" "P x" "star_greedy P xs c k = Some m"
    by (auto split: list.splits if_splits)
  from star_greedy_sound [OF s(3)] obtain ys s' where "xs = ys @ s'" "list_all P ys" "k s' c = Some m"
    by blast
  with s have "x # ys \<noteq> [] \<and> s = (x # ys) @ s' \<and> list_all P (x # ys) \<and> k s' c = Some m" by simp
  then show ?case unfolding rmatch.simps by blast
next
  case (LazyStar P)
  then show ?case using star_lazy_sound [of P s c k m] by auto
next
  case (Cap r)
  from Cap.prems have "bt r s c (\<lambda>s' c'. k s' (Some (take (length s - length s') s))) = Some m"
    by simp
  from Cap.IH [OF this] show ?case by auto
next
  case (Ahead r)
  from Ahead.prems obtain s1 c1 where a: "bt r s c (\<lambda>s' c'. Some (s', c')) = Some (s1, c1)"
    "k s c1 = Some m"
    by (auto split: option.splits)
  from Ahead.IH [OF a(1)] have "\<exists>t. rmatch r s t" by blast
  with a(2) show ?case by auto
next
  case Eoi
  then show ?case by (auto split: if_splits)
qed

lemma js_match_None_iff:
  "js_match r b0 = None \<longleftrightarrow> (\<forall>pre s. b0 = pre @ s \<longrightarrow> match_at r s = None)"
proof (induction b0)
  case Nil
  then show ?case by (auto simp: match_at_def split: option.splits)
next
  case (Cons x xs)
  show ?case
  proof (cases "match_at r (x # xs)")
    case None
    then have "js_match r (x # xs) = js_match r xs" by (simp add: match_at_def)
    with Cons None show ?thesis
      by (auto simp: Cons_eq_append_conv)
  next
    case (Some a)
    then have "js_match r (x # xs) \<noteq> None" by (auto simp: match_at_def split: prod.splits)
    moreover have "x # xs = [] @ (x # xs)" by simp
    ultimately show ?thesis using Some by (metis option.distinct(1))
  qed
qed

lemma js_match_Some_iff:
  "js_match r b0 = Some c \<longleftrightarrow>
     (\<exists>pre s s'. b0 = pre @ s \<and> match_at r s = Some (s', c)
        \<and> (\<forall>pre' t. b0 = pre' @ t \<and> length pre' < length pre \<longrightarrow> match_at r t = None))"
proof (induction b0)
  case Nil
  then show ?case by (auto simp: match_at_def split: option.splits)
next
  case (Cons x xs)
  show ?case
  proof (cases "match_at r (x # xs)")
    case None
    then have j: "js_match r (x # xs) = js_match r xs" by (simp add: match_at_def)
    show ?thesis
    proof
      assume "js_match r (x # xs) = Some c"
      with j Cons obtain pre s s' where p: "xs = pre @ s" "match_at r s = Some (s', c)"
        "\<forall>pre' t. xs = pre' @ t \<and> length pre' < length pre \<longrightarrow> match_at r t = None"
        by auto
      have "\<forall>pre' t. x # xs = pre' @ t \<and> length pre' < length (x # pre) \<longrightarrow> match_at r t = None"
        using p(3) None by (auto simp: Cons_eq_append_conv)
      with p(1,2) have "x # xs = (x # pre) @ s \<and> match_at r s = Some (s', c)
          \<and> (\<forall>pre' t. x # xs = pre' @ t \<and> length pre' < length (x # pre) \<longrightarrow> match_at r t = None)"
        by simp
      then show "\<exists>pre s s'. x # xs = pre @ s \<and> match_at r s = Some (s', c)
        \<and> (\<forall>pre' t. x # xs = pre' @ t \<and> length pre' < length pre \<longrightarrow> match_at r t = None)"
        by blast
    next
      assume "\<exists>pre s s'. x # xs = pre @ s \<and> match_at r s = Some (s', c)
        \<and> (\<forall>pre' t. x # xs = pre' @ t \<and> length pre' < length pre \<longrightarrow> match_at r t = None)"
      then obtain pre s s' where p: "x # xs = pre @ s" "match_at r s = Some (s', c)"
        "\<forall>pre' t. x # xs = pre' @ t \<and> length pre' < length pre \<longrightarrow> match_at r t = None"
        by blast
      from p(1,2) None obtain pre0 where pre: "pre = x # pre0" "xs = pre0 @ s"
        by (cases pre) auto
      have "\<forall>pre' t. xs = pre' @ t \<and> length pre' < length pre0 \<longrightarrow> match_at r t = None"
      proof (intro allI impI)
        fix pre' t assume "xs = pre' @ t \<and> length pre' < length pre0"
        then have "x # xs = (x # pre') @ t \<and> length (x # pre') < length pre" using pre by simp
        with p(3) show "match_at r t = None" by blast
      qed
      with pre p(2) have "js_match r xs = Some c" using Cons by blast
      with j show "js_match r (x # xs) = Some c" by simp
    qed
  next
    case (Some a)
    obtain s1 c1 where a: "a = (s1, c1)" by (cases a)
    with Some have j: "js_match r (x # xs) = Some c1" by (simp add: match_at_def)
    show ?thesis
    proof
      assume "js_match r (x # xs) = Some c"
      with j have "c1 = c" by simp
      with Some a have "x # xs = [] @ (x # xs) \<and> match_at r (x # xs) = Some (s1, c)
        \<and> (\<forall>pre' t. x # xs = pre' @ t \<and> length pre' < length ([]::string) \<longrightarrow> match_at r t = None)"
        by simp
      then show "\<exists>pre s s'. x # xs = pre @ s \<and> match_at r s = Some (s', c)
        \<and> (\<forall>pre' t. x # xs = pre' @ t \<and> length pre' < length pre \<longrightarrow> match_at r t = None)"
        by blast
    next
      assume "\<exists>pre s s'. x # xs = pre @ s \<and> match_at r s = Some (s', c)
        \<and> (\<forall>pre' t. x # xs = pre' @ t \<and> length pre' < length pre \<longrightarrow> match_at r t = None)"
      then obtain pre s s' where p: "x # xs = pre @ s" "match_at r s = Some (s', c)"
        "\<forall>pre' t. x # xs = pre' @ t \<and> length pre' < length pre \<longrightarrow> match_at r t = None"
        by blast
      have "pre = []"
      proof (rule ccontr)
        assume "pre \<noteq> []"
        then have "x # xs = [] @ (x # xs) \<and> length ([]::string) < length pre" by simp
        with p(3) have "match_at r (x # xs) = None" by blast
        with Some show False by simp
      qed
      with p(1,2) Some a have "c1 = c" by simp
      with j show "js_match r (x # xs) = Some c" by simp
    qed
  qed
qed

section \<open>Properties of the preview URL extraction\<close>

text \<open>
  The priorities of the backtracking matcher do not matter for the preview pattern: at
  each choice at most one alternative can lead to a match, and the last quantifier is
  greedy with nothing after it. The lemmas follow the pattern from right to left.
\<close>

lemma ci_eq_Nil [simp]: "ci_eq xs [] \<longleftrightarrow> xs = []"
  by (simp add: ci_eq_def)

lemma ci_eq_Cons_iff:
  "ci_eq xs (p # ps) \<longleftrightarrow>
     (\<exists>y ys. xs = y # ys \<and> canonicalize p = canonicalize y \<and> ci_eq ys ps)"
  by (cases xs) (auto simp: ci_eq_def)

lemma ci_eq_refl [simp]: "ci_eq w w"
  by (simp add: ci_eq_def)

lemma ci_eq_append:
  assumes "ci_eq xs (a @ b)"
  shows "\<exists>us vs. xs = us @ vs \<and> ci_eq us a \<and> ci_eq vs b"
proof -
  from assms have e: "map canonicalize xs = map canonicalize a @ map canonicalize b"
    by (simp add: ci_eq_def)
  then have "take (length a) (map canonicalize xs) = map canonicalize a"
    and "drop (length a) (map canonicalize xs) = map canonicalize b"
    by simp_all
  then have "ci_eq (take (length a) xs) a" and "ci_eq (drop (length a) xs) b"
    by (simp_all add: ci_eq_def take_map drop_map)
  moreover have "xs = take (length a) xs @ drop (length a) xs" by simp
  ultimately show ?thesis by blast
qed

lemma canon_colon [simp]: "canonicalize CHR '':'' = canonicalize y \<longleftrightarrow> y = CHR '':''"
proof -
  have "y = CHR '':'' \<longleftrightarrow> (of_char y :: nat) = of_char CHR '':''" by (simp only: of_char_eq_iff)
  then show ?thesis by (auto simp: canon_eq_iff simp del: of_char_eq_iff)
qed

lemma canon_slash [simp]: "canonicalize CHR ''/'' = canonicalize y \<longleftrightarrow> y = CHR ''/''"
proof -
  have "y = CHR ''/'' \<longleftrightarrow> (of_char y :: nat) = of_char CHR ''/''" by (simp only: of_char_eq_iff)
  then show ?thesis by (auto simp: canon_eq_iff simp del: of_char_eq_iff)
qed

lemma ci_eq_colon [simp]: "ci_eq w '':'' \<longleftrightarrow> w = '':''"
  by (auto simp: ci_eq_Cons_iff)

lemma ci_eq_css [simp]: "ci_eq w ''://'' \<longleftrightarrow> w = ''://''"
  by (auto simp: ci_eq_Cons_iff)

lemma bt_Lit_ok: "ci_eq w' w \<Longrightarrow> bt (Lit w) (w' @ t) c k = k t c"
proof -
  assume "ci_eq w' w"
  then have "lit_match w (w' @ t) = Some t" unfolding lit_match_Some_iff by blast
  then show ?thesis by simp
qed

lemma star_greedy_skip:
  assumes "\<And>x xs. P x \<Longrightarrow> k (x # xs) c = None"
  shows "star_greedy P s c k = k (dropWhile P s) c"
proof (induction s)
  case Nil
  then show ?case by simp
next
  case (Cons x s)
  show ?case
  proof (cases "P x")
    case True
    with assms have "k (x # s) c = None" by simp
    with True Cons show ?thesis by (simp split: option.splits)
  next
    case False
    then show ?thesis by simp
  qed
qed

lemma star_greedy_max:
  "k (dropWhile P s) c = Some m \<Longrightarrow> star_greedy P s c k = Some m"
  by (induction s) auto

lemma dropWhile_all:
  "list_all P xs \<Longrightarrow> rest = [] \<or> \<not> P (hd rest) \<Longrightarrow> dropWhile P (xs @ rest) = rest"
  by (induction xs) (cases rest; auto)+

lemma space_not_letter:
  "is_space x \<Longrightarrow> canonicalize p = canonicalize x \<Longrightarrow> is_space p"
  by (auto simp: canon_eq_iff is_space_code split: if_splits)

lemma space_canon [simp]:
  "is_space x \<Longrightarrow> canonicalize CHR ''h'' \<noteq> canonicalize x"
  "is_space x \<Longrightarrow> canonicalize CHR ''u'' \<noteq> canonicalize x"
  "is_space x \<Longrightarrow> x \<noteq> CHR '':''"
  by (auto simp: canon_eq_iff is_space_code)

lemma not_space_chars [simp]:
  "\<not> is_space CHR '':''" "\<not> is_space CHR ''u''" "\<not> is_space CHR ''h''"
  "\<not> is_space CHR ''p''" "\<not> is_space CHR ''d''"
  by (simp_all add: is_space_def)

lemma canon_distinct [simp]:
  "canonicalize CHR ''p'' \<noteq> canonicalize CHR ''d''"
  "canonicalize CHR ''d'' \<noteq> canonicalize CHR ''p''"
  "canonicalize CHR ''s'' \<noteq> canonicalize CHR '':''"
  by (simp_all add: canon_eq_iff)


lemma plus_url:
  assumes "tail \<noteq> []" "list_all url_char tail" "rest = [] \<or> \<not> url_char (hd rest)"
    and "k rest c = Some m"
  shows "bt (Plus url_char) (tail @ rest) c k = Some m"
proof -
  from assms(1) obtain y ys where t: "tail = y # ys" by (cases tail) auto
  with assms(2) have y: "url_char y" "list_all url_char ys" by auto
  have "dropWhile url_char (ys @ rest) = rest" using y(2) assms(3) by (rule dropWhile_all)
  with assms(4) have "star_greedy url_char (ys @ rest) c k = Some m"
    by (simp add: star_greedy_max)
  with t y(1) show ?thesis by simp
qed

lemma ci_eq_https:
  "ci_eq scheme ''https'' \<Longrightarrow>
     \<exists>sch x. scheme = sch @ [x] \<and> ci_eq sch ''http'' \<and> canonicalize CHR ''s'' = canonicalize x"
proof -
  assume "ci_eq scheme ''https''"
  then have "ci_eq scheme (''http'' @ ''s'')" by simp
  then obtain us vs where "scheme = us @ vs" "ci_eq us ''http''" "ci_eq vs ''s''"
    using ci_eq_append by blast
  then show ?thesis by (auto simp: ci_eq_Cons_iff)
qed

lemma url_pattern_match:
  assumes "is_http_url u" "rest = [] \<or> \<not> url_char (hd rest)" "k rest c = Some m"
  shows "bt url_pattern (u @ rest) c k = Some m"
proof -
  from assms(1) obtain scheme tail where u: "u = scheme @ ''://'' @ tail"
    and sch: "ci_eq scheme ''http'' \<or> ci_eq scheme ''https''"
    and tail: "tail \<noteq> []" "list_all url_char tail"
    unfolding is_http_url_def by blast
  have plus: "bt (Plus url_char) (tail @ rest) c k = Some m"
    using tail assms(2,3) by (rule plus_url)
  have css: "bt (Seq (Lit ''://'') (Plus url_char)) (''://'' @ tail @ rest) c k = Some m"
    using plus bt_Lit_ok [of "''://''" "''://''" "tail @ rest" c "\<lambda>s' c'. bt (Plus url_char) s' c' k"]
    by simp
  from sch show ?thesis
  proof
    assume h: "ci_eq scheme ''http''"
    have "bt (Seq (Opt (Lit ''s'')) (Seq (Lit ''://'') (Plus url_char))) (''://'' @ tail @ rest) c k
        = Some m"
      using css by simp
    then have "bt url_pattern (scheme @ (''://'' @ tail @ rest)) c k = Some m"
      unfolding url_pattern_def bt.simps(2) [of "Lit ''http''"]
      by (simp only: bt_Lit_ok [OF h])
    then show ?thesis by (simp add: u)
  next
    assume "ci_eq scheme ''https''"
    from ci_eq_https [OF this] obtain sch x where s: "scheme = sch @ [x]" "ci_eq sch ''http''"
      "canonicalize CHR ''s'' = canonicalize x" by blast
    have "bt (Seq (Opt (Lit ''s'')) (Seq (Lit ''://'') (Plus url_char))) (x # ''://'' @ tail @ rest) c k
        = Some m"
      using css s(3) by simp
    then have "bt url_pattern (sch @ (x # ''://'' @ tail @ rest)) c k = Some m"
      unfolding url_pattern_def bt.simps(2) [of "Lit ''http''"]
      by (simp only: bt_Lit_ok [OF s(2)])
    then show ?thesis by (simp add: u s(1))
  qed
qed

lemma cap_url:
  assumes "is_http_url u" "rest = [] \<or> \<not> url_char (hd rest)"
  shows "bt (Cap url_pattern) (u @ rest) c (\<lambda>s' c'. Some (s', c')) = Some (rest, Some u)"
  using url_pattern_match [OF assms, of
      "\<lambda>s' c'. Some (s', Some (take (length (u @ rest) - length s') (u @ rest)))" c
      "(rest, Some u)"]
  by simp

lemma cap_url_space:
  "is_space x \<Longrightarrow> bt (Cap url_pattern) (x # xs) c k = None"
  by (simp add: url_pattern_def)

lemma url_hd:
  assumes "is_http_url u"
  shows "\<exists>y ys. u = y # ys \<and> \<not> is_space y"
proof -
  from assms obtain scheme tail where u: "u = scheme @ ''://'' @ tail"
    and sch: "ci_eq scheme ''http'' \<or> ci_eq scheme ''https''"
    unfolding is_http_url_def by blast
  from sch obtain y ys where "scheme = y # ys" "canonicalize CHR ''h'' = canonicalize y"
    by (auto simp: ci_eq_Cons_iff)
  moreover from this have "\<not> is_space y" using space_canon(1) [of y] by auto
  ultimately show ?thesis using u by auto
qed

lemma ws_url:
  assumes "list_all is_space ws" "is_http_url u" "rest = [] \<or> \<not> url_char (hd rest)"
  shows "bt (Seq (Star is_space) (Cap url_pattern)) (ws @ u @ rest) c (\<lambda>s' c'. Some (s', c'))
           = Some (rest, Some u)"
proof -
  from url_hd [OF assms(2)] obtain y ys where u: "u = y # ys" "\<not> is_space y" by blast
  then have "u @ rest = [] \<or> \<not> is_space (hd (u @ rest))" by simp
  with assms(1) have d: "dropWhile is_space (ws @ u @ rest) = u @ rest"
    by (rule dropWhile_all)
  have "star_greedy is_space (ws @ u @ rest) c
          (\<lambda>s' c'. bt (Cap url_pattern) s' c' (\<lambda>s' c'. Some (s', c')))
      = bt (Cap url_pattern) (dropWhile is_space (ws @ u @ rest)) c (\<lambda>s' c'. Some (s', c'))"
    by (rule star_greedy_skip) (rule cap_url_space)
  with d cap_url [OF assms(2,3)] show ?thesis by simp
qed

lemma colon_ws_url:
  assumes "list_all is_space ws" "is_http_url u" "rest = [] \<or> \<not> url_char (hd rest)"
  shows "bt (Seq (Lit '':'') (Seq (Star is_space) (Cap url_pattern))) ('':'' @ ws @ u @ rest) c
           (\<lambda>s' c'. Some (s', c')) = Some (rest, Some u)"
  using ws_url [OF assms, of c] by simp

lemma colon_space_fails:
  "is_space x \<Longrightarrow> bt (Seq (Lit '':'') r) (x # xs) c k = None"
  by simp

lemma opt_url:
  assumes g: "g = [] \<or> (\<exists>sp w. g = sp @ w \<and> gap_spaces sp \<and> ci_eq w ''url'')"
    and ksp: "\<And>x xs. is_space x \<Longrightarrow> k (x # xs) c = None"
  shows "bt (Opt (Seq (Plus is_space) (Lit ''url''))) (g @ '':'' @ t) c k = k ('':'' @ t) c"
proof (cases "g = []")
  case True
  then show ?thesis by simp
next
  case False
  with g obtain sp w where gw: "g = sp @ w" "gap_spaces sp" "ci_eq w ''url''" by blast
  from gw(2) obtain x sp' where sp: "sp = x # sp'" "is_space x" "list_all is_space sp'"
    by (cases sp) (auto simp: gap_spaces_def)
  from gw(3) obtain a w' where w: "w = a # w'" "canonicalize CHR ''u'' = canonicalize a"
    by (auto simp: ci_eq_Cons_iff)
  then have na: "\<not> is_space a" using space_canon(2) [of a] by auto
  let ?L = "\<lambda>s' c'. if length s' = length (g @ '':'' @ t) then None else k s' c'"
  let ?k' = "\<lambda>s' c'. bt (Lit ''url'') s' c' ?L"
  have fails: "\<And>y ys. is_space y \<Longrightarrow> ?k' (y # ys) c = None" by simp
  have "star_greedy is_space (sp' @ w @ '':'' @ t) c ?k'
      = ?k' (dropWhile is_space (sp' @ w @ '':'' @ t)) c"
    using fails by (rule star_greedy_skip)
  moreover have "dropWhile is_space (sp' @ (w @ '':'' @ t)) = w @ '':'' @ t"
    using sp(3) by (rule dropWhile_all) (simp add: w na)
  moreover have "?k' (w @ '':'' @ t) c = ?L ('':'' @ t) c"
    using bt_Lit_ok [OF gw(3), of "'':'' @ t" c ?L] by simp
  moreover have "?L ('':'' @ t) c = k ('':'' @ t) c" by (simp add: gw(1) sp(1))
  ultimately have inner:
    "bt (Seq (Plus is_space) (Lit ''url'')) (g @ '':'' @ t) c ?L = k ('':'' @ t) c"
    by (simp add: gw(1) sp)
  have skip: "k (g @ '':'' @ t) c = None" using ksp [of x] sp by (simp add: gw(1))
  show ?thesis
    unfolding bt.simps(4) inner using skip by (simp split: option.splits)
qed

lemma keyword:
  assumes "ci_eq kw ''preview'' \<or> ci_eq kw ''deploy''"
  shows "bt (Alt (Lit ''preview'') (Lit ''deploy'')) (kw @ t) c k = k t c"
  using assms
proof
  assume p: "ci_eq kw ''preview''"
  then obtain y ys where "kw = y # ys" "canonicalize CHR ''p'' = canonicalize y"
    by (auto simp: ci_eq_Cons_iff)
  then have "lit_match ''deploy'' (kw @ t) = None"
    using canon_distinct(2) by simp
  then have "bt (Lit ''deploy'') (kw @ t) c k = None" by simp
  with bt_Lit_ok [OF p, of t c k] show ?thesis by (simp split: option.splits)
next
  assume d: "ci_eq kw ''deploy''"
  then obtain y ys where "kw = y # ys" "canonicalize CHR ''d'' = canonicalize y"
    by (auto simp: ci_eq_Cons_iff)
  then have "lit_match ''preview'' (kw @ t) = None"
    using canon_distinct(1) by simp
  then have "bt (Lit ''preview'') (kw @ t) c k = None" by simp
  with bt_Lit_ok [OF d, of t c k] show ?thesis by simp
qed

lemma preview_complete:
  assumes "s = kw @ g @ '':'' @ ws @ u @ rest"
    and "ci_eq kw ''preview'' \<or> ci_eq kw ''deploy''"
    and "g = [] \<or> (\<exists>sp w. g = sp @ w \<and> gap_spaces sp \<and> ci_eq w ''url'')"
    and "list_all is_space ws" and "is_http_url u"
    and "rest = [] \<or> \<not> url_char (hd rest)"
  shows "match_at preview_pattern s = Some (rest, Some u)"
proof -
  let ?F = "\<lambda>s' c'. Some (s', c') :: match_state option"
  let ?R2 = "Seq (Lit '':'') (Seq (Star is_space) (Cap url_pattern))"
  let ?k2 = "\<lambda>s' c'. bt ?R2 s' c' ?F"
  have a: "?k2 ('':'' @ ws @ u @ rest) None = Some (rest, Some u)"
    using assms(4,5,6) by (rule colon_ws_url)
  have b: "bt (Opt (Seq (Plus is_space) (Lit ''url''))) (g @ '':'' @ (ws @ u @ rest)) None ?k2
        = ?k2 ('':'' @ (ws @ u @ rest)) None"
    using assms(3) by (rule opt_url) simp
  have c: "bt (Alt (Lit ''preview'') (Lit ''deploy'')) (kw @ (g @ '':'' @ ws @ u @ rest)) None
          (\<lambda>s' c'. bt (Seq (Opt (Seq (Plus is_space) (Lit ''url''))) ?R2) s' c' ?F)
        = bt (Seq (Opt (Seq (Plus is_space) (Lit ''url''))) ?R2) (g @ '':'' @ ws @ u @ rest) None ?F"
    using assms(2) by (rule keyword)
  show ?thesis
    unfolding match_at_def preview_pattern_def assms(1) bt.simps(2) [of "Alt _ _"] c
    unfolding bt.simps(2) [of "Opt _"]
    using a b by simp
qed

lemma ci_eq_appendI: "ci_eq a p \<Longrightarrow> ci_eq b q \<Longrightarrow> ci_eq (a @ b) (p @ q)"
  by (simp add: ci_eq_def)

lemma rmatch_url_shape:
  assumes "rmatch url_pattern s s'"
  shows "\<exists>u0. s = u0 @ s' \<and> is_http_url u0"
proof -
  from assms obtain m1 m2 m3 where
    h: "rmatch (Lit ''http'') s m1" and
    o: "rmatch (Opt (Lit ''s'')) m1 m2" and
    c: "rmatch (Lit ''://'') m2 m3" and
    p: "rmatch (Plus url_char) m3 s'"
    unfolding url_pattern_def rmatch.simps(2) by blast
  from h obtain w1 where w1: "s = w1 @ m1" "ci_eq w1 ''http''"
    by (auto simp: lit_match_Some_iff)
  from o obtain w2 where w2: "m1 = w2 @ m2" "w2 = [] \<or> ci_eq w2 ''s''"
    by (auto simp: lit_match_Some_iff)
  from c have m2: "m2 = ''://'' @ m3"
    by (auto simp: lit_match_Some_iff)
  from p obtain xs where xs: "xs \<noteq> []" "m3 = xs @ s'" "list_all url_char xs"
    by auto
  have sch: "ci_eq (w1 @ w2) ''http'' \<or> ci_eq (w1 @ w2) ''https''"
    using w2(2) w1(2) ci_eq_appendI [of w1 "''http''" w2 "''s''"] by auto
  have "s = ((w1 @ w2) @ ''://'' @ xs) @ s'" using w1(1) w2(1) m2 xs(2) by simp
  moreover have "is_http_url ((w1 @ w2) @ ''://'' @ xs)"
    unfolding is_http_url_def using sch xs(1,3) by blast
  ultimately show ?thesis by blast
qed

lemma rmatch_preview_shape:
  assumes "rmatch preview_pattern s s'"
  shows "\<exists>kw g ws u0. s = kw @ g @ '':'' @ ws @ u0 @ s'
      \<and> (ci_eq kw ''preview'' \<or> ci_eq kw ''deploy'')
      \<and> (g = [] \<or> (\<exists>sp w. g = sp @ w \<and> gap_spaces sp \<and> ci_eq w ''url''))
      \<and> list_all is_space ws \<and> is_http_url u0"
proof -
  from assms obtain m1 m2 m3 m4 where
    k: "rmatch (Alt (Lit ''preview'') (Lit ''deploy'')) s m1" and
    o: "rmatch (Opt (Seq (Plus is_space) (Lit ''url''))) m1 m2" and
    c: "rmatch (Lit '':'') m2 m3" and
    w: "rmatch (Star is_space) m3 m4" and
    u: "rmatch url_pattern m4 s'"
    unfolding preview_pattern_def rmatch.simps(2) rmatch.simps(8) by blast
  from k obtain kw where kw: "s = kw @ m1" "ci_eq kw ''preview'' \<or> ci_eq kw ''deploy''"
    by (auto simp: lit_match_Some_iff)
  from o have "m2 = m1 \<or> (\<exists>sp t. sp \<noteq> [] \<and> m1 = sp @ t \<and> list_all is_space sp
      \<and> (\<exists>w. t = w @ m2 \<and> ci_eq w ''url''))"
    by (auto simp: lit_match_Some_iff)
  then obtain g where g: "m1 = g @ m2"
    "g = [] \<or> (\<exists>sp w. g = sp @ w \<and> gap_spaces sp \<and> ci_eq w ''url'')"
  proof
    assume "m2 = m1"
    then have "m1 = [] @ m2" by simp
    then show ?thesis using that by blast
  next
    assume "\<exists>sp t. sp \<noteq> [] \<and> m1 = sp @ t \<and> list_all is_space sp
      \<and> (\<exists>w. t = w @ m2 \<and> ci_eq w ''url'')"
    then obtain sp w where "sp \<noteq> []" "m1 = (sp @ w) @ m2" "list_all is_space sp" "ci_eq w ''url''"
      by auto
    then show ?thesis using that [of "sp @ w"] by (auto simp: gap_spaces_def)
  qed
  from c have m2: "m2 = '':'' @ m3" by (auto simp: lit_match_Some_iff)
  from w obtain ws where ws: "m3 = ws @ m4" "list_all is_space ws" by auto
  from rmatch_url_shape [OF u] obtain u0 where u0: "m4 = u0 @ s'" "is_http_url u0" by blast
  have "s = kw @ g @ '':'' @ ws @ u0 @ s'" using kw(1) g(1) m2 ws(1) u0(1) by simp
  with kw(2) g(2) ws(2) u0(2) show ?thesis by blast
qed

lemma http_url_extend:
  assumes "is_http_url u0"
  shows "is_http_url (u0 @ takeWhile url_char r)"
proof -
  from assms obtain scheme tail where "u0 = scheme @ ''://'' @ tail"
    "ci_eq scheme ''http'' \<or> ci_eq scheme ''https''" "tail \<noteq> []" "list_all url_char tail"
    unfolding is_http_url_def by blast
  then have "u0 @ takeWhile url_char r = scheme @ ''://'' @ (tail @ takeWhile url_char r)
      \<and> (ci_eq scheme ''http'' \<or> ci_eq scheme ''https'')
      \<and> tail @ takeWhile url_char r \<noteq> [] \<and> list_all url_char (tail @ takeWhile url_char r)"
    by (auto simp: list_all_iff dest: set_takeWhileD)
  then show ?thesis unfolding is_http_url_def by blast
qed

lemma preview_sound:
  assumes "match_at preview_pattern s = Some m"
  shows "\<exists>u. preview_at gap_spaces s u"
proof -
  from assms have "bt preview_pattern s None (\<lambda>s' c'. Some (s', c')) = Some m"
    by (simp add: match_at_def)
  from bt_sound [OF this] obtain s' where "rmatch preview_pattern s s'" by blast
  from rmatch_preview_shape [OF this] obtain kw g ws u0 where
    d: "s = kw @ g @ '':'' @ ws @ u0 @ s'"
    "ci_eq kw ''preview'' \<or> ci_eq kw ''deploy''"
    "g = [] \<or> (\<exists>sp w. g = sp @ w \<and> gap_spaces sp \<and> ci_eq w ''url'')"
    "list_all is_space ws" "is_http_url u0"
    by blast
  let ?u = "u0 @ takeWhile url_char s'"
  let ?rest = "dropWhile url_char s'"
  have "s = kw @ g @ '':'' @ ws @ ?u @ ?rest" using d(1) by simp
  moreover have "is_http_url ?u" using d(5) by (rule http_url_extend)
  moreover have "?rest = [] \<or> \<not> url_char (hd ?rest)"
    using hd_dropWhile [of url_char s'] by blast
  ultimately show ?thesis unfolding preview_at_def using d(2,3,4) by blast
qed

lemma preview_at_match:
  assumes "preview_at gap_spaces s u"
  shows "\<exists>rest. match_at preview_pattern s = Some (rest, Some u)"
proof -
  from assms obtain kw g ws rest where
    "s = kw @ g @ '':'' @ ws @ u @ rest"
    "ci_eq kw ''preview'' \<or> ci_eq kw ''deploy''"
    "g = [] \<or> (\<exists>sp w. g = sp @ w \<and> gap_spaces sp \<and> ci_eq w ''url'')"
    "list_all is_space ws" "is_http_url u"
    "rest = [] \<or> \<not> url_char (hd rest)"
    unfolding preview_at_def by blast
  then have "match_at preview_pattern s = Some (rest, Some u)" by (rule preview_complete)
  then show ?thesis by blast
qed

lemma match_at_preview_iff:
  "(\<exists>rest. match_at preview_pattern s = Some (rest, c)) \<longleftrightarrow>
     (\<exists>u. c = Some u \<and> preview_at gap_spaces s u)"
proof
  assume "\<exists>rest. match_at preview_pattern s = Some (rest, c)"
  then obtain rest where m: "match_at preview_pattern s = Some (rest, c)" by blast
  from preview_sound [OF m] obtain u where u: "preview_at gap_spaces s u" by blast
  from preview_at_match [OF u] m have "c = Some u" by auto
  with u show "\<exists>u. c = Some u \<and> preview_at gap_spaces s u" by blast
next
  assume "\<exists>u. c = Some u \<and> preview_at gap_spaces s u"
  then show "\<exists>rest. match_at preview_pattern s = Some (rest, c)"
    using preview_at_match by blast
qed

lemma match_at_preview_None_iff:
  "match_at preview_pattern s = None \<longleftrightarrow> (\<forall>u. \<not> preview_at gap_spaces s u)"
proof
  assume "match_at preview_pattern s = None"
  then show "\<forall>u. \<not> preview_at gap_spaces s u" using preview_at_match by fastforce
next
  assume n: "\<forall>u. \<not> preview_at gap_spaces s u"
  show "match_at preview_pattern s = None"
  proof (cases "match_at preview_pattern s")
    case None
    then show ?thesis .
  next
    case (Some m)
    from preview_sound [OF this] n show ?thesis by blast
  qed
qed

text \<open>
  Claim C5 as it is written, with \<^verbatim>\<open>url\<close> directly after the keyword, fails on the
  body \<^verbatim>\<open>previewurl: https://example.com/x\<close>: the body starts with \<^verbatim>\<open>preview\<close>,
  followed by \<^verbatim>\<open>url\<close>, a colon, a space and a URL, and the code finds no URL. The
  regular expression asks for white space before \<^verbatim>\<open>url\<close>, as in
  \<^verbatim>\<open>Preview URL: https://...\<close> of the comment in the source.
\<close>

theorem preview_url_counterexample:
  "extractPreviewUrl ''previewurl: https://example.com/x'' = None
 \<and> first_preview gap_none ''previewurl: https://example.com/x'' ''https://example.com/x''"
proof -
  have code: "extractPreviewUrl ''previewurl: https://example.com/x'' = None"
    by code_simp
  have url: "is_http_url ''https://example.com/x''"
  proof -
    have "''https://example.com/x'' = ''https'' @ ''://'' @ ''example.com/x''
        \<and> (ci_eq ''https'' ''http'' \<or> ci_eq ''https'' ''https'')
        \<and> ''example.com/x'' \<noteq> [] \<and> list_all url_char ''example.com/x''"
      by (simp add: url_char_def is_space_def)
    then show ?thesis unfolding is_http_url_def by blast
  qed
  have "''previewurl: https://example.com/x''
          = ''preview'' @ ''url'' @ '':'' @ '' '' @ ''https://example.com/x'' @ []
      \<and> (ci_eq ''preview'' ''preview'' \<or> ci_eq ''preview'' ''deploy'')
      \<and> (''url'' = [] \<or> (\<exists>sp w. ''url'' = sp @ w \<and> gap_none sp \<and> ci_eq w ''url''))
      \<and> list_all is_space '' ''
      \<and> is_http_url ''https://example.com/x''
      \<and> (([]::string) = [] \<or> \<not> url_char (hd []))"
    using url by (simp add: gap_none_def is_space_def)
  then have at: "preview_at gap_none ''previewurl: https://example.com/x'' ''https://example.com/x''"
    unfolding preview_at_def by blast
  have "''previewurl: https://example.com/x'' = [] @ ''previewurl: https://example.com/x''
      \<and> preview_at gap_none ''previewurl: https://example.com/x'' ''https://example.com/x''
      \<and> (\<forall>pre' s' u'. ''previewurl: https://example.com/x'' = pre' @ s'
             \<and> length pre' < length ([]::string) \<longrightarrow> \<not> preview_at gap_none s' u')"
    using at by simp
  then have "first_preview gap_none ''previewurl: https://example.com/x'' ''https://example.com/x''"
    unfolding first_preview_def by blast
  with code show ?thesis by simp
qed

text \<open>
  Claim C5, amended. For every body, \<open>extractPreviewUrl\<close> returns the URL of the first
  match, without regard to case, of \<^verbatim>\<open>preview\<close> or \<^verbatim>\<open>deploy\<close>, optionally followed
  by one or more white-space code units and \<^verbatim>\<open>url\<close>, then a colon and optional white
  space, then an \<^verbatim>\<open>http://\<close> or \<^verbatim>\<open>https://\<close> URL that runs up to the first white
  space or closing parenthesis; it returns nothing exactly when the body has no match.
\<close>

theorem preview_url_first_match:
  "(extractPreviewUrl b = Some u \<longleftrightarrow> first_preview gap_spaces b u)
 \<and> (extractPreviewUrl b = None \<longleftrightarrow> no_preview gap_spaces b)"
proof
  have "extractPreviewUrl b = Some u \<longleftrightarrow> js_match preview_pattern b = Some (Some u)"
    by (auto simp: extractPreviewUrl_def split: option.splits)
  also have "\<dots> \<longleftrightarrow> (\<exists>pre s s'. b = pre @ s \<and> match_at preview_pattern s = Some (s', Some u)
        \<and> (\<forall>pre' t. b = pre' @ t \<and> length pre' < length pre
              \<longrightarrow> match_at preview_pattern t = None))"
    by (rule js_match_Some_iff)
  also have "\<dots> \<longleftrightarrow> (\<exists>pre s. b = pre @ s \<and> (\<exists>s'. match_at preview_pattern s = Some (s', Some u))
        \<and> (\<forall>pre' t. b = pre' @ t \<and> length pre' < length pre
              \<longrightarrow> match_at preview_pattern t = None))"
    by blast
  also have "\<dots> \<longleftrightarrow> first_preview gap_spaces b u"
    unfolding first_preview_def match_at_preview_iff match_at_preview_None_iff by auto
  finally show "extractPreviewUrl b = Some u \<longleftrightarrow> first_preview gap_spaces b u" .
next
  have no: "js_match preview_pattern b \<noteq> Some None"
  proof
    assume "js_match preview_pattern b = Some None"
    then obtain s s' where "match_at preview_pattern s = Some (s', None)"
      unfolding js_match_Some_iff by blast
    then have "\<exists>rest. match_at preview_pattern s = Some (rest, None)" by blast
    then show False unfolding match_at_preview_iff by simp
  qed
  have "extractPreviewUrl b = None \<longleftrightarrow> js_match preview_pattern b = None"
    using no by (auto simp: extractPreviewUrl_def split: option.splits)
  also have "\<dots> \<longleftrightarrow> (\<forall>pre s. b = pre @ s \<longrightarrow> match_at preview_pattern s = None)"
    by (rule js_match_None_iff)
  also have "\<dots> \<longleftrightarrow> no_preview gap_spaces b"
    unfolding match_at_preview_None_iff no_preview_def by blast
  finally show "extractPreviewUrl b = None \<longleftrightarrow> no_preview gap_spaces b" .
qed

theorem preview_url_first_match_witness:
  "extractPreviewUrl (''Preview: https://example.com/x'' @ [nl] @ ''more text'')
     = Some ''https://example.com/x''
 \<and> first_preview gap_spaces (''Preview: https://example.com/x'' @ [nl] @ ''more text'')
       ''https://example.com/x''
 \<and> extractPreviewUrl ''previewurl: https://example.com/x'' = None
 \<and> no_preview gap_spaces ''previewurl: https://example.com/x''"
proof -
  have a: "extractPreviewUrl (''Preview: https://example.com/x'' @ [nl] @ ''more text'')
     = Some ''https://example.com/x''"
    by code_simp
  have b: "extractPreviewUrl ''previewurl: https://example.com/x'' = None"
    by code_simp
  from a b
    preview_url_first_match [of "''Preview: https://example.com/x'' @ [nl] @ ''more text''"
      "''https://example.com/x''"]
    preview_url_first_match [of "''previewurl: https://example.com/x''" "[]"]
  show ?thesis by blast
qed


section \<open>Properties of the absent fields\<close>

lemma previewUrl_normalize:
  "previewUrl (normalizeGitHubIssue issue)
     = extractPreviewUrl (case body issue of None \<Rightarrow> [] | Some t \<Rightarrow> t)"
  by (simp add: normalizeGitHubIssue_def Let_def)

lemma extract_Some_occurs:
  assumes "extractPreviewUrl b = Some u"
  shows "sublist u b \<and> is_http_url u"
proof -
  from assms have "js_match preview_pattern b = Some (Some u)"
    by (auto simp: extractPreviewUrl_def split: option.splits)
  then obtain pre s s' where p: "b = pre @ s" "match_at preview_pattern s = Some (s', Some u)"
    unfolding js_match_Some_iff by blast
  then have "\<exists>rest. match_at preview_pattern s = Some (rest, Some u)" by blast
  then have "preview_at gap_spaces s u" unfolding match_at_preview_iff by simp
  then obtain kw g ws rest where d: "s = kw @ g @ '':'' @ ws @ u @ rest" "is_http_url u"
    unfolding preview_at_def by blast
  from p(1) d(1) have "b = (pre @ kw @ g @ '':'' @ ws) @ u @ rest" by simp
  then have "sublist u b" unfolding sublist_def by blast
  with d(2) show ?thesis by simp
qed

lemma extract_None_no_preview:
  "extractPreviewUrl b = None \<longleftrightarrow> no_preview gap_spaces b"
proof -
  have no: "js_match preview_pattern b \<noteq> Some None"
  proof
    assume "js_match preview_pattern b = Some None"
    then obtain s s' where "match_at preview_pattern s = Some (s', None)"
      unfolding js_match_Some_iff by blast
    then have "\<exists>rest. match_at preview_pattern s = Some (rest, None)" by blast
    then show False unfolding match_at_preview_iff by simp
  qed
  have "extractPreviewUrl b = None \<longleftrightarrow> js_match preview_pattern b = None"
    using no by (auto simp: extractPreviewUrl_def split: option.splits)
  also have "\<dots> \<longleftrightarrow> (\<forall>pre s. b = pre @ s \<longrightarrow> match_at preview_pattern s = None)"
    by (rule js_match_None_iff)
  also have "\<dots> \<longleftrightarrow> no_preview gap_spaces b"
    unfolding match_at_preview_None_iff no_preview_def by blast
  finally show ?thesis .
qed

text \<open>
  Claim C9. For every raw item the seven fields reserved for the second phase are absent
  from the card. \<open>qaGrade\<close> is absent exactly when no label name has the prefix
  \<^verbatim>\<open>qa-grade:\<close>, and a grade that is present comes from a label of the item.
  \<open>previewUrl\<close> is absent exactly when the body (the empty string when the item has no
  body) holds no match of the preview pattern, and a URL that is present is a part of the
  body and an \<^verbatim>\<open>http(s)\<close> URL. So neither field ever holds a placeholder.
\<close>

theorem absent_fields:
  "lastEventType (normalizeGitHubIssue issue) = None
 \<and> lastEventTimestamp (normalizeGitHubIssue issue) = None
 \<and> overallVerdict (normalizeGitHubIssue issue) = None
 \<and> provenanceVerified (normalizeGitHubIssue issue) = None
 \<and> qaProvider (normalizeGitHubIssue issue) = None
 \<and> qaModel (normalizeGitHubIssue issue) = None
 \<and> qaTemperature (normalizeGitHubIssue issue) = None
 \<and> (qaGrade (normalizeGitHubIssue issue) = None
       \<longleftrightarrow> (\<forall>n \<in> set (map name (labels issue)). \<not> prefix ''qa-grade:'' n))
 \<and> (qaGrade (normalizeGitHubIssue issue) = Some g
       \<longrightarrow> ''qa-grade:'' @ g \<in> set (map name (labels issue)))
 \<and> (previewUrl (normalizeGitHubIssue issue) = None
       \<longleftrightarrow> no_preview gap_spaces (case body issue of None \<Rightarrow> [] | Some t \<Rightarrow> t))
 \<and> (previewUrl (normalizeGitHubIssue issue) = Some u
       \<longrightarrow> sublist u (case body issue of None \<Rightarrow> [] | Some t \<Rightarrow> t) \<and> is_http_url u)"
proof -
  have reserved: "lastEventType (normalizeGitHubIssue issue) = None
     \<and> lastEventTimestamp (normalizeGitHubIssue issue) = None
     \<and> overallVerdict (normalizeGitHubIssue issue) = None
     \<and> provenanceVerified (normalizeGitHubIssue issue) = None
     \<and> qaProvider (normalizeGitHubIssue issue) = None
     \<and> qaModel (normalizeGitHubIssue issue) = None
     \<and> qaTemperature (normalizeGitHubIssue issue) = None"
    by (simp add: normalizeGitHubIssue_def Let_def)
  have none: "qaGrade (normalizeGitHubIssue issue) = None
       \<longleftrightarrow> (\<forall>n \<in> set (map name (labels issue)). \<not> prefix ''qa-grade:'' n)"
  proof -
    have "qaGrade (normalizeGitHubIssue issue) = None
        \<longleftrightarrow> find (prefix ''qa-grade:'') (map name (labels issue)) = None"
      unfolding qaGrade_normalize by (simp split: option.splits)
    also have "\<dots> \<longleftrightarrow> (\<forall>n \<in> set (map name (labels issue)). \<not> prefix ''qa-grade:'' n)"
      unfolding find_None_iff by blast
    finally show ?thesis .
  qed
  have some: "qaGrade (normalizeGitHubIssue issue) = Some g
       \<longrightarrow> ''qa-grade:'' @ g \<in> set (map name (labels issue))"
  proof
    assume "qaGrade (normalizeGitHubIssue issue) = Some g"
    then obtain n where n: "find (prefix ''qa-grade:'') (map name (labels issue)) = Some n"
      "g = drop (length ''qa-grade:'') n"
      unfolding qaGrade_normalize by (auto split: option.splits)
    from n(1) have "n \<in> set (map name (labels issue))" "prefix ''qa-grade:'' n"
      by (auto dest: find_SomeD)
    moreover from this(2) n(2) have "n = ''qa-grade:'' @ g" by (auto simp: prefix_def)
    ultimately show "''qa-grade:'' @ g \<in> set (map name (labels issue))" by simp
  qed
  have pnone: "previewUrl (normalizeGitHubIssue issue) = None
       \<longleftrightarrow> no_preview gap_spaces (case body issue of None \<Rightarrow> [] | Some t \<Rightarrow> t)"
    unfolding previewUrl_normalize by (rule extract_None_no_preview)
  have psome: "previewUrl (normalizeGitHubIssue issue) = Some u
       \<longrightarrow> sublist u (case body issue of None \<Rightarrow> [] | Some t \<Rightarrow> t) \<and> is_http_url u"
    unfolding previewUrl_normalize using extract_Some_occurs by blast
  from reserved none some pnone psome show ?thesis by blast
qed

theorem absent_fields_witness:
  "qaGrade (normalizeGitHubIssue bare_issue) = None
 \<and> previewUrl (normalizeGitHubIssue bare_issue) = None
 \<and> no_preview gap_spaces ''previewurl: https://example.com/x''
 \<and> overallVerdict (normalizeGitHubIssue bare_issue) = None
 \<and> qaModel (normalizeGitHubIssue bare_issue) = None
 \<and> qaGrade (normalizeGitHubIssue linked_issue) = Some ''A''
 \<and> ''qa-grade:A'' \<in> set (map name (labels linked_issue))
 \<and> previewUrl (normalizeGitHubIssue linked_issue) = Some ''https://example.com/x''
 \<and> sublist ''https://example.com/x'' (''Preview: https://example.com/x'' @ [nl] @ ''more text'')
 \<and> is_http_url ''https://example.com/x''"
proof -
  have a: "extractPreviewUrl ''previewurl: https://example.com/x'' = None"
    by code_simp
  have b: "extractPreviewUrl (''Preview: https://example.com/x'' @ [nl] @ ''more text'')
     = Some ''https://example.com/x''"
    by code_simp
  have pa: "previewUrl (normalizeGitHubIssue bare_issue) = None"
    unfolding previewUrl_normalize using a by (simp add: bare_issue_def)
  have pb: "previewUrl (normalizeGitHubIssue linked_issue) = Some ''https://example.com/x''"
    unfolding previewUrl_normalize using b by (simp add: linked_issue_def)
  have qb: "qaGrade (normalizeGitHubIssue linked_issue) = Some ''A''"
    unfolding qaGrade_normalize by (simp add: linked_issue_def)
  have ba: "(case body bare_issue of None \<Rightarrow> [] | Some t \<Rightarrow> t) = ''previewurl: https://example.com/x''"
    by (simp add: bare_issue_def)
  have bb: "(case body linked_issue of None \<Rightarrow> [] | Some t \<Rightarrow> t)
      = ''Preview: https://example.com/x'' @ [nl] @ ''more text''"
    by (simp add: linked_issue_def)
  have la: "\<forall>n \<in> set (map name (labels bare_issue)). \<not> prefix ''qa-grade:'' n"
    by (simp add: bare_issue_def)
  from absent_fields [of bare_issue "[]" "[]"] la pa
  have 1: "qaGrade (normalizeGitHubIssue bare_issue) = None
     \<and> no_preview gap_spaces ''previewurl: https://example.com/x''
     \<and> overallVerdict (normalizeGitHubIssue bare_issue) = None
     \<and> qaModel (normalizeGitHubIssue bare_issue) = None"
    unfolding ba by blast
  from absent_fields [of linked_issue "''A''" "''https://example.com/x''"] qb pb
  have 2: "''qa-grade:A'' \<in> set (map name (labels linked_issue))
     \<and> sublist ''https://example.com/x'' (''Preview: https://example.com/x'' @ [nl] @ ''more text'')
     \<and> is_http_url ''https://example.com/x''"
    unfolding bb by simp
  from 1 2 pa pb qb show ?thesis by blast
qed


end
